theory Spec2Isabelle
  imports Main "HOL-Library.Product_Lexorder"
begin

section \<open>Python values and errors\<close>

text \<open>
  The two source files are \<^verbatim>\<open>python/debugger/context.py\<close> and
  \<^verbatim>\<open>python/tools/bmodel_dis.py\<close>. Python integers are \<open>int\<close>, strings are \<open>string\<close>,
  a function that may raise returns a sum with the exception on the left, and what a
  function changes outside its result is passed in and returned.
\<close>

datatype Device = BM1684X | BM1684

text \<open>
  An argument handed to \<^verbatim>\<open>Context(device)\<close>: a string, a member of the enumeration, or
  any other Python value (one that equals no member value).
\<close>

datatype pyarg = PyStr string | PyDevice Device | PyOther

text \<open>
  Every \<^verbatim>\<open>raise\<close> and \<^verbatim>\<open>assert\<close> of the two source files, and every exception
  the Python runtime raises in them, is one constructor, named after the exception class
  and the place that raises it.
\<close>

datatype error =
    ValueError_not_a_valid_Device pyarg   \<comment> \<open>\<^verbatim>\<open>Device(device)\<close>, context.py line 30\<close>
  | ValueError_Unknown_device pyarg       \<comment> \<open>context.py line 45\<close>
  | ValueError_not_supported Device       \<comment> \<open>context.py line 81\<close>
  | AssertionError_pad_h                  \<comment> \<open>context.py line 103\<close>
  | AssertionError_device                 \<comment> \<open>context.py line 106\<close>
  | ValueError_not_a_valid_DType int      \<comment> \<open>\<^verbatim>\<open>op_support.DType(tensor.dtype)\<close>, line 104\<close>
  | ZeroDivisionError                     \<comment> \<open>\<^verbatim>\<open>4 // dtype.itemsize\<close>, line 109\<close>
  | IndexError                            \<comment> \<open>\<^verbatim>\<open>tensor.shape[0]\<close>, \<^verbatim>\<open>subnet["Id"][0]\<close>\<close>
  | KeyError string                       \<comment> \<open>\<^verbatim>\<open>fmt_op[format]\<close>, bmodel_dis.py line 74\<close>

section \<open>context.py: the device context\<close>

subsection \<open>The enumeration and the constructor\<close>

fun Device_value :: "Device \<Rightarrow> string" where
  "Device_value BM1684X = ''BM1684X''"
| "Device_value BM1684 = ''BM1684''"

text \<open>
  \<^verbatim>\<open>Device(device)\<close>: the value lookup of \<^verbatim>\<open>enum.Enum\<close>. A member is returned as it is,
  a value is looked up among the member values, anything else raises ValueError.
\<close>

fun Device_call :: "pyarg \<Rightarrow> error + Device" where
  "Device_call (PyDevice d) = Inr d"
| "Device_call (PyStr s) =
     (if s = Device_value BM1684X then Inr BM1684X
      else if s = Device_value BM1684 then Inr BM1684
      else Inl (ValueError_not_a_valid_Device (PyStr s)))"
| "Device_call PyOther = Inl (ValueError_not_a_valid_Device PyOther)"

text \<open>
  The four modules the constructor imports. They are not part of the two source files;
  a module is modelled as its name.
\<close>

datatype opdef_module = opdef_1684x | opdef_1684

datatype opparam_module = opparam_1684x | opparam_1684

text \<open>\<^verbatim>\<open>__slots__ = "opdef", "opparam", "device"\<close>\<close>

record Context =
  opdef :: opdef_module
  opparam :: opparam_module
  device :: Device

text \<open>
  \<^verbatim>\<open>Context.__init__\<close>, lines 29 to 45. The constructor either returns the finished
  object or raises; the three branches are kept as the source has them, the last one
  included.
\<close>

definition Context_init :: "pyarg \<Rightarrow> error + Context" where
  "Context_init dev =
     (case Device_call dev of
        Inl e \<Rightarrow> Inl e
      | Inr d \<Rightarrow>
          if d = BM1684X then
            Inr \<lparr>opdef = opdef_1684x, opparam = opparam_1684x, device = d\<rparr>
          else if d = BM1684 then
            Inr \<lparr>opdef = opdef_1684, opparam = opparam_1684, device = d\<rparr>
          else Inl (ValueError_Unknown_device dev))"

subsection \<open>The pass-through accessors\<close>

text \<open>An object reached as an attribute of an operand-layout module.\<close>

datatype module_attr = ModuleAttr opparam_module string

definition memmap :: "Context \<Rightarrow> module_attr" where
  "memmap self = ModuleAttr (opparam self) ''memmap''"

definition MemRef :: "Context \<Rightarrow> module_attr" where
  "MemRef self = ModuleAttr (opparam self) ''MemRef''"

text \<open>
  The device registry of the specification (section 2): each supported variant is mapped
  to a fixed pair of modules, the opcode-definition set and the operand-layout set.
\<close>

fun registry :: "Device \<Rightarrow> opdef_module \<times> opparam_module" where
  "registry BM1684X = (opdef_1684x, opparam_1684x)"
| "registry BM1684 = (opdef_1684, opparam_1684)"

subsection \<open>tensor2memref\<close>

text \<open>
  A tensor descriptor of the container, with the five attributes the method reads.
  \<^verbatim>\<open>shape\<close> is a sequence of shapes, of which the method takes the first.
\<close>

record tensor =
  pad_h :: int
  dtype :: int
  st_mode :: int
  shape :: "int list list"
  device_addr :: int

text \<open>
  The names of \<^verbatim>\<open>op_support\<close> the method uses. The module is not among the source
  files, so its three functions are parameters: the conversion
  \<^verbatim>\<open>DType(code)\<close> (an enumeration lookup, which may raise), the byte size of a data
  type and the contiguous stride of a shape. The stride is a numpy array of 64-bit signed
  integers: multiplying it by an integer multiplies every entry, and a product outside
  the 64-bit range wraps around.
\<close>

record 'dt op_support =
  DType :: "int \<Rightarrow> error + 'dt"
  itemsize :: "'dt \<Rightarrow> int"
  get_continuous_stride :: "int list \<Rightarrow> int list"

text \<open>The value a 64-bit signed integer holds after an operation whose exact result is \<open>v\<close>.\<close>

definition int64 :: "int \<Rightarrow> int" where
  "int64 v = (v + 2 ^ 63) mod 2 ^ 64 - 2 ^ 63"

datatype Layout = continuous_XN

text \<open>
  A memory reference, as the call \<^verbatim>\<open>self.MemRef(address, shape, dtype, stride=..., layout=...)\<close>
  builds it: the class that was called and the five arguments.
\<close>

record 'dt memref =
  mr_class :: module_attr
  mr_address :: int
  mr_shape :: "int list"
  mr_dtype :: 'dt
  mr_stride :: "int list"
  mr_layout :: "Layout option"

text \<open>\<^verbatim>\<open>Context.tensor2memref\<close>, lines 102 to 120.\<close>

definition tensor2memref ::
  "'dt op_support \<Rightarrow> Context \<Rightarrow> tensor \<Rightarrow> error + 'dt memref" where
  "tensor2memref os self t =
     (if pad_h t \<noteq> 0 then Inl AssertionError_pad_h
      else case DType os (dtype t) of
        Inl e \<Rightarrow> Inl e
      | Inr dt \<Rightarrow>
          if st_mode t = 1 \<or> st_mode t = 2 then
            if device self \<noteq> BM1684 then Inl AssertionError_device
            else if itemsize os dt = 0 then Inl ZeroDivisionError
            else
              let xn = 4 div itemsize os dt in
              (case shape t of
                 [] \<Rightarrow> Inl IndexError
               | s0 # _ \<Rightarrow>
                   Inr \<lparr>mr_class = MemRef self, mr_address = device_addr t,
                        mr_shape = s0, mr_dtype = dt,
                        mr_stride = map (\<lambda>x. int64 (x * xn)) (get_continuous_stride os s0),
                        mr_layout = Some continuous_XN\<rparr>)
          else
            (case shape t of
               [] \<Rightarrow> Inl IndexError
             | s0 # _ \<Rightarrow>
                 Inr \<lparr>mr_class = MemRef self, mr_address = device_addr t,
                      mr_shape = s0, mr_dtype = dt,
                      mr_stride = get_continuous_stride os s0,
                      mr_layout = None\<rparr>))"

section \<open>bmodel_dis.py: binary export\<close>

subsection \<open>Decimal text of an integer\<close>

text \<open>
  \<^verbatim>\<open>str(x)\<close> and the \<^verbatim>\<open>{x}\<close> of a format string, for a Python integer: the decimal
  digits, with a leading minus sign for a negative number.
\<close>

definition digit_char :: "nat \<Rightarrow> char" where
  "digit_char d = ''0123456789'' ! d"

fun str_nat :: "nat \<Rightarrow> string" where
  "str_nat n = (if n < 10 then [digit_char n] else str_nat (n div 10) @ [digit_char (n mod 10)])"

declare str_nat.simps [simp del]

definition str_int :: "int \<Rightarrow> string" where
  "str_int i = (if i < 0 then CHR ''-'' # str_nat (nat (- i)) else str_nat (nat i))"

subsection \<open>The parsed container\<close>

text \<open>
  The hierarchy the reader \<^verbatim>\<open>dis.BModelReader\<close> returns, as the two tools walk it:
  \<^verbatim>\<open>bmodel.nets["Net"]\<close>, \<^verbatim>\<open>net["Parameter"]\<close>, \<^verbatim>\<open>param["SubNet"]\<close>,
  \<^verbatim>\<open>subnet["Id"]\<close> and \<^verbatim>\<open>subnet["CmdGroup"]\<close>, and the two byte buffers of a command
  group. The reader itself is not among the source files.
\<close>

type_synonym bytes = "nat list"

record cmd_group =
  tiu_cmd :: bytes
  dma_cmd :: bytes

record subnet =
  SubNet_Id :: "int list"
  CmdGroup :: "cmd_group list"

record parameter =
  SubNet :: "subnet list"

record net =
  Parameter :: "parameter list"

record bmodel =
  Chip :: "string list"
  Net :: "net list"

subsection \<open>BModel2Bin\<close>

text \<open>
  The files of the working directory: a file name is mapped to its content. Opening a
  file with mode \<^verbatim>\<open>"wb"\<close> and writing a buffer replaces the content of that name.
\<close>

type_synonym files = "string \<rightharpoonup> bytes"

text \<open>
  The two file names of lines 53 and 55:
  \<^verbatim>\<open>bmodel_file + f".{_id}.tiu.bin"\<close> and \<^verbatim>\<open>bmodel_file + f".{_id}.dma.bin"\<close>.
\<close>

definition tiu_bin :: "string \<Rightarrow> int \<Rightarrow> string" where
  "tiu_bin bmodel_file i = bmodel_file @ ''.'' @ str_int i @ ''.tiu.bin''"

definition dma_bin :: "string \<Rightarrow> int \<Rightarrow> string" where
  "dma_bin bmodel_file i = bmodel_file @ ''.'' @ str_int i @ ''.dma.bin''"

text \<open>The body of the innermost loop, lines 53 to 56.\<close>

definition write_group :: "string \<Rightarrow> int \<Rightarrow> cmd_group \<Rightarrow> files \<Rightarrow> files" where
  "write_group bmodel_file i g fs =
     (fs(tiu_bin bmodel_file i \<mapsto> tiu_cmd g))(dma_bin bmodel_file i \<mapsto> dma_cmd g)"

text \<open>
  The four nested loops, lines 48 to 56, innermost first. A run returns the files it
  leaves behind and the exception that ended it, if one did: \<^verbatim>\<open>subnet["Id"][0]\<close>
  raises IndexError on an empty sequence, and what was written before stays written.
\<close>

fun export_groups :: "string \<Rightarrow> int \<Rightarrow> cmd_group list \<Rightarrow> files \<Rightarrow> files" where
  "export_groups bmodel_file i [] fs = fs"
| "export_groups bmodel_file i (g # gs) fs =
     export_groups bmodel_file i gs (write_group bmodel_file i g fs)"

fun export_subnets :: "string \<Rightarrow> subnet list \<Rightarrow> files \<Rightarrow> files \<times> error option" where
  "export_subnets bmodel_file [] fs = (fs, None)"
| "export_subnets bmodel_file (s # ss) fs =
     (case SubNet_Id s of
        [] \<Rightarrow> (fs, Some IndexError)
      | i # _ \<Rightarrow> export_subnets bmodel_file ss (export_groups bmodel_file i (CmdGroup s) fs))"

fun export_parameters :: "string \<Rightarrow> parameter list \<Rightarrow> files \<Rightarrow> files \<times> error option" where
  "export_parameters bmodel_file [] fs = (fs, None)"
| "export_parameters bmodel_file (p # ps) fs =
     (case export_subnets bmodel_file (SubNet p) fs of
        (fs', Some e) \<Rightarrow> (fs', Some e)
      | (fs', None) \<Rightarrow> export_parameters bmodel_file ps fs')"

fun export_nets :: "string \<Rightarrow> net list \<Rightarrow> files \<Rightarrow> files \<times> error option" where
  "export_nets bmodel_file [] fs = (fs, None)"
| "export_nets bmodel_file (n # ns) fs =
     (case export_parameters bmodel_file (Parameter n) fs of
        (fs', Some e) \<Rightarrow> (fs', Some e)
      | (fs', None) \<Rightarrow> export_nets bmodel_file ns fs')"

text \<open>
  \<^verbatim>\<open>BModel2Bin(bmodel_file)\<close>, lines 46 to 56, on the container \<open>bm\<close> the reader returned
  for the path and the files \<open>fs\<close> present before the call.
\<close>

definition BModel2Bin :: "string \<Rightarrow> bmodel \<Rightarrow> files \<Rightarrow> files \<times> error option" where
  "BModel2Bin bmodel_file bm fs = export_nets bmodel_file (Net bm) fs"

text \<open>All subnets of a container, in traversal order.\<close>

definition subnets :: "bmodel \<Rightarrow> subnet list" where
  "subnets bm = concat (map SubNet (concat (map Parameter (Net bm))))"

section \<open>context.py: objects with identity\<close>

subsection \<open>The process state\<close>

text \<open>
  What a running Python process holds beyond the values the functions return: the
  identities handed out to new objects, the cache that \<^verbatim>\<open>functools.lru_cache()\<close> attaches
  to the function \<^verbatim>\<open>decoder\<close>, the attributes set on classes, and the files. A Context
  instance is referred to by its identity, a natural number; the cache compares and hashes
  its keys by identity, since the class defines neither \<^verbatim>\<open>__eq__\<close> nor \<^verbatim>\<open>__hash__\<close>.
\<close>

text \<open>
  A \<^verbatim>\<open>disassembler.Decoder(self)\<close> object: its identity and the context it is bound to.
  The class is not among the source files; calling it is taken to build a new object and
  to change nothing else.
\<close>

record decoder_obj =
  dec_id :: nat
  dec_context :: nat

text \<open>A simulator \<^verbatim>\<open>cmodel.BM1684X(memory_size)\<close> or \<^verbatim>\<open>cmodel.BM1684(memory_size)\<close>.\<close>

record cmodel_obj =
  cm_id :: nat
  cm_device :: Device
  cm_memory_size :: int

text \<open>The object \<^verbatim>\<open>self.opparam.Memory(cmodel.LMEM, cmodel.DDR)\<close> of line 58.\<close>

record memory_obj =
  mem_id :: nat
  mem_module :: opparam_module
  mem_cmodel :: nat

text \<open>
  The three values \<^verbatim>\<open>__bind_resource\<close> sets as class attributes: the function
  \<^verbatim>\<open>lambda c: cmodel.tiu_compute(c.cmd)\<close>, the function
  \<^verbatim>\<open>lambda c: cmodel.dma_compute(c.cmd)\<close> (each closed over the simulator with the given
  identity), and the property \<^verbatim>\<open>data\<close>, closed over the memory object.
\<close>

datatype attr_value = Compute_tiu nat | Compute_dma nat | Data_property memory_obj

record 'cls process =
  next_id :: nat
  decoder_cache :: "(nat \<times> decoder_obj) list"
  class_attrs :: "'cls \<Rightarrow> string \<rightharpoonup> attr_value"
  proc_files :: files

text \<open>
  The class tables of the modules \<^verbatim>\<open>opdef_1684x\<close>, \<^verbatim>\<open>opdef_1684\<close> (the dictionaries
  \<^verbatim>\<open>tiu_cls\<close> and \<^verbatim>\<open>dma_cls\<close>, as their \<^verbatim>\<open>items()\<close>) and the class \<^verbatim>\<open>MemRef\<close> of the
  modules \<^verbatim>\<open>opparam_1684x\<close>, \<^verbatim>\<open>opparam_1684\<close>. The modules are not among the source
  files, so the tables are parameters; \<open>'cls\<close> is the type of class objects.
\<close>

record 'cls class_tables =
  tiu_cls :: "opdef_module \<Rightarrow> (string \<times> 'cls list) list"
  dma_cls :: "opdef_module \<Rightarrow> (string \<times> 'cls list) list"
  MemRef_class :: "opparam_module \<Rightarrow> 'cls"

subsection \<open>The cached property decoder\<close>

text \<open>
  \<^verbatim>\<open>functools.lru_cache()\<close> is called without arguments, so the cache holds at most
  \<^verbatim>\<open>maxsize = 128\<close> entries. The entries are kept from the least to the most recently
  used. A hit moves the entry to the end and returns its value; a miss calls the
  function, and then drops the first entry if the cache is full, and appends the new one.
\<close>

definition maxsize :: nat where
  "maxsize = 128"

text \<open>\<^verbatim>\<open>Context.decoder\<close>, lines 94 to 97, read on the Context instance \<open>self\<close>.\<close>

definition decoder :: "nat \<Rightarrow> 'cls process \<Rightarrow> decoder_obj \<times> 'cls process" where
  "decoder self s =
     (case map_of (decoder_cache s) self of
        Some d \<Rightarrow>
          (d, s\<lparr>decoder_cache := filter (\<lambda>(k, v). k \<noteq> self) (decoder_cache s) @ [(self, d)]\<rparr>)
      | None \<Rightarrow>
          let d = \<lparr>dec_id = next_id s, dec_context = self\<rparr> in
          (d, s\<lparr>next_id := next_id s + 1,
                decoder_cache :=
                  (if length (decoder_cache s) \<ge> maxsize then tl (decoder_cache s)
                   else decoder_cache s) @ [(self, d)]\<rparr>))"

text \<open>
  A sequence of reads of \<^verbatim>\<open>.decoder\<close>, on the instances \<open>cs\<close> in turn: the objects
  returned, and the state afterwards.
\<close>

fun decoder_reads :: "nat list \<Rightarrow> 'cls process \<Rightarrow> decoder_obj list \<times> 'cls process" where
  "decoder_reads [] s = ([], s)"
| "decoder_reads (c # cs) s =
     (case decoder c s of (d, s') \<Rightarrow>
        (case decoder_reads cs s' of (ds, s'') \<Rightarrow> (d # ds, s'')))"

text \<open>A process in which nothing has been cached, bound or written yet.\<close>

definition fresh_process :: "'cls process" where
  "fresh_process =
     \<lparr>next_id = 0, decoder_cache = [], class_attrs = (\<lambda>c. Map.empty), proc_files = Map.empty\<rparr>"

text \<open>
  The invariant of the cache, over the set \<open>A\<close> of all decoder objects built so far:
  a cached decoder is bound to its key, identities below \<open>next_id\<close> are taken, and no two
  objects share an identity.
\<close>

definition cache_inv :: "decoder_obj set \<Rightarrow> 'cls process \<Rightarrow> bool" where
  "cache_inv A s \<longleftrightarrow>
     (\<forall>(k, d) \<in> set (decoder_cache s). dec_context d = k \<and> d \<in> A)
   \<and> (\<forall>d \<in> A. dec_id d < next_id s)
   \<and> (\<forall>d \<in> A. \<forall>d' \<in> A. dec_id d = dec_id d' \<longrightarrow> d = d')"

subsection \<open>get\_runner\<close>

text \<open>\<^verbatim>\<open>setattr(cls, name, value)\<close> on a class.\<close>

definition setattr :: "'cls \<Rightarrow> string \<Rightarrow> attr_value \<Rightarrow> 'cls process \<Rightarrow> 'cls process" where
  "setattr c name v s = s\<lparr>class_attrs := (class_attrs s)(c := (class_attrs s c)(name \<mapsto> v))\<rparr>"

text \<open>One of the two double loops of lines 49 to 55, over the items of a class dictionary.\<close>

definition bind_compute ::
  "(string \<times> 'cls list) list \<Rightarrow> attr_value \<Rightarrow> 'cls process \<Rightarrow> 'cls process" where
  "bind_compute items v s =
     fold (\<lambda>(k, ops) s. fold (\<lambda>op s. setattr op ''compute'' v s) ops s) items s"

text \<open>\<^verbatim>\<open>Context.__bind_resource\<close>, lines 47 to 68.\<close>

definition bind_resource ::
  "'cls class_tables \<Rightarrow> Context \<Rightarrow> cmodel_obj \<Rightarrow> 'cls process \<Rightarrow> 'cls process" where
  "bind_resource tabs self cmodel s =
     (let s1 = bind_compute (tiu_cls tabs (opdef self)) (Compute_tiu (cm_id cmodel)) s;
          s2 = bind_compute (dma_cls tabs (opdef self)) (Compute_dma (cm_id cmodel)) s1;
          memory = \<lparr>mem_id = next_id s2, mem_module = opparam self,
                    mem_cmodel = cm_id cmodel\<rparr>;
          s3 = s2\<lparr>next_id := next_id s2 + 1\<rparr>
      in setattr (MemRef_class tabs (opparam self)) ''data'' (Data_property memory) s3)"

text \<open>\<^verbatim>\<open>Context.get_runner\<close>, lines 70 to 84.\<close>

definition get_runner ::
  "'cls class_tables \<Rightarrow> Context \<Rightarrow> int \<Rightarrow> 'cls process
     \<Rightarrow> (error + cmodel_obj) \<times> 'cls process" where
  "get_runner tabs self memory_size s =
     (case
        (if device self = BM1684X then
           Inr \<lparr>cm_id = next_id s, cm_device = BM1684X, cm_memory_size = memory_size\<rparr>
         else if device self = BM1684 then
           Inr \<lparr>cm_id = next_id s, cm_device = BM1684, cm_memory_size = memory_size\<rparr>
         else Inl (ValueError_not_supported (device self)))
      of
        Inl e \<Rightarrow> (Inl e, s)
      | Inr cmodel \<Rightarrow>
          (Inr cmodel, bind_resource tabs self cmodel (s\<lparr>next_id := next_id s + 1\<rparr>)))"

text \<open>The classes in the two dictionaries of the opcode module of a context.\<close>

definition tiu_classes :: "'cls class_tables \<Rightarrow> Context \<Rightarrow> 'cls set" where
  "tiu_classes tabs self = set (concat (map snd (tiu_cls tabs (opdef self))))"

definition dma_classes :: "'cls class_tables \<Rightarrow> Context \<Rightarrow> 'cls set" where
  "dma_classes tabs self = set (concat (map snd (dma_cls tabs (opdef self))))"

section \<open>bmodel_dis.py: module and register form\<close>

text \<open>
  Modelled from the spec: the decoder of \<^verbatim>\<open>debugger.disassembler\<close>, which is not among
  the source files. Section 6 of the specification lists its interface,
  \<^verbatim>\<open>decode_bmodel_cmd(cmdGroup, subnetId) -> bundle\<close>, and section 4.1 the function
  \<^verbatim>\<open>BModel2MLIR(container, decoder)\<close> that builds the module form; section 5 says that
  decoding never touches the state attached to the classes. Both are therefore functions
  of their arguments, given as parameters.
\<close>

record ('m, 'b) disassembler =
  dis_BModel2MLIR :: "bmodel \<Rightarrow> decoder_obj \<Rightarrow> 'm"
  decode_bmodel_cmd :: "decoder_obj \<Rightarrow> cmd_group \<Rightarrow> int \<Rightarrow> 'b"

text \<open>
  \<^verbatim>\<open>Context(chip)\<close> followed by \<^verbatim>\<open>context.decoder\<close>, as lines 28 to 30 and 35 to 37
  have it: the chip name is the first entry of \<^verbatim>\<open>bmodel.nets["Chip"]\<close>, the new Context
  instance takes the next identity, and its decoder is read through the cache.
\<close>

definition context_decoder ::
  "bmodel \<Rightarrow> 'cls process \<Rightarrow> (error + decoder_obj) \<times> 'cls process" where
  "context_decoder bm s =
     (case Chip bm of
        [] \<Rightarrow> (Inl IndexError, s)
      | chip # _ \<Rightarrow>
          (case Context_init (PyStr chip) of
             Inl e \<Rightarrow> (Inl e, s)
           | Inr context \<Rightarrow>
               (case decoder (next_id s) (s\<lparr>next_id := next_id s + 1\<rparr>) of
                  (d, s') \<Rightarrow> (Inr d, s'))))"

text \<open>
  \<^verbatim>\<open>BModel2MLIR(bmodel_file)\<close>, lines 26 to 30, with \<^verbatim>\<open>Context.BModel2MLIR\<close>, lines 99
  and 100, on the container the reader returned.
\<close>

definition BModel2MLIR ::
  "('m, 'b) disassembler \<Rightarrow> bmodel \<Rightarrow> 'cls process \<Rightarrow> (error + 'm) \<times> 'cls process" where
  "BModel2MLIR dis bm s =
     (case context_decoder bm s of
        (Inl e, s') \<Rightarrow> (Inl e, s')
      | (Inr d, s') \<Rightarrow> (Inr (dis_BModel2MLIR dis bm d), s'))"

text \<open>
  The four loops of the generator \<^verbatim>\<open>BModel2Reg\<close>, lines 38 to 43, innermost first: the
  pairs it yields, and the exception that ends it, if one does.
\<close>

fun reg_subnets ::
  "('m, 'b) disassembler \<Rightarrow> decoder_obj \<Rightarrow> subnet list \<Rightarrow> (int \<times> 'b) list \<times> error option" where
  "reg_subnets dis d [] = ([], None)"
| "reg_subnets dis d (s # ss) =
     (case SubNet_Id s of
        [] \<Rightarrow> ([], Some IndexError)
      | i # _ \<Rightarrow>
          (case reg_subnets dis d ss of
             (ys, e) \<Rightarrow> (map (\<lambda>g. (i, decode_bmodel_cmd dis d g i)) (CmdGroup s) @ ys, e)))"

fun reg_parameters ::
  "('m, 'b) disassembler \<Rightarrow> decoder_obj \<Rightarrow> parameter list \<Rightarrow> (int \<times> 'b) list \<times> error option" where
  "reg_parameters dis d [] = ([], None)"
| "reg_parameters dis d (p # ps) =
     (case reg_subnets dis d (SubNet p) of
        (ys, Some e) \<Rightarrow> (ys, Some e)
      | (ys, None) \<Rightarrow> (case reg_parameters dis d ps of (zs, e) \<Rightarrow> (ys @ zs, e)))"

fun reg_nets ::
  "('m, 'b) disassembler \<Rightarrow> decoder_obj \<Rightarrow> net list \<Rightarrow> (int \<times> 'b) list \<times> error option" where
  "reg_nets dis d [] = ([], None)"
| "reg_nets dis d (n # ns) =
     (case reg_parameters dis d (Parameter n) of
        (ys, Some e) \<Rightarrow> (ys, Some e)
      | (ys, None) \<Rightarrow> (case reg_nets dis d ns of (zs, e) \<Rightarrow> (ys @ zs, e)))"

text \<open>\<^verbatim>\<open>BModel2Reg(bmodel_file)\<close>, lines 33 to 43, run to its end.\<close>

definition BModel2Reg ::
  "('m, 'b) disassembler \<Rightarrow> bmodel \<Rightarrow> 'cls process
     \<Rightarrow> ((int \<times> 'b) list \<times> error option) \<times> 'cls process" where
  "BModel2Reg dis bm s =
     (case context_decoder bm s of
        (Inl e, s') \<Rightarrow> (([], Some e), s')
      | (Inr d, s') \<Rightarrow> (reg_nets dis d (Net bm), s'))"

section \<open>bmodel_dis.py: the diff engine\<close>

subsection \<open>The sequence matcher of the standard library\<close>

text \<open>
  \<^verbatim>\<open>unified_diff\<close> calls \<^verbatim>\<open>difflib.SequenceMatcher(None, a, b).get_grouped_opcodes(n)\<close>.
  The class belongs to the Python standard library; its methods are embedded here as
  CPython 3.11 has them, for \<^verbatim>\<open>isjunk = None\<close> and \<^verbatim>\<open>autojunk = True\<close>. The elements of
  the two sequences are compared with \<^verbatim>\<open>==\<close> and used as dictionary keys; in the model they
  are the values of a type \<open>'a\<close>, and \<^verbatim>\<open>==\<close> is equality. Indices are Python integers.
\<close>

text \<open>
  \<^verbatim>\<open>__chain_b\<close>: the dictionary \<^verbatim>\<open>b2j\<close> maps an element of \<open>b\<close> to the ascending list
  of its positions in \<open>b\<close>. With 200 elements or more, every element that occurs more than
  \<^verbatim>\<open>n // 100 + 1\<close> times is "popular" and is deleted from the dictionary.
\<close>

fun chain_loop :: "int \<Rightarrow> 'a list \<Rightarrow> ('a \<rightharpoonup> int list) \<Rightarrow> ('a \<rightharpoonup> int list)" where
  "chain_loop i [] b2j = b2j"
| "chain_loop i (elt # rest) b2j =
     chain_loop (i + 1) rest
       (b2j(elt \<mapsto> (case b2j elt of None \<Rightarrow> [] | Some indices \<Rightarrow> indices) @ [i]))"

definition chain_b :: "'a list \<Rightarrow> ('a \<rightharpoonup> int list)" where
  "chain_b b =
     (let b2j = chain_loop 0 b Map.empty; n = length b in
      if n \<ge> 200 then
        (let ntest = n div 100 + 1 in
         (\<lambda>elt. case b2j elt of
                   None \<Rightarrow> None
                 | Some idxs \<Rightarrow> if length idxs > ntest then None else Some idxs))
      else b2j)"

text \<open>
  \<^verbatim>\<open>find_longest_match\<close>. The inner loop runs over the positions \<open>j\<close> of \<^verbatim>\<open>a[i]\<close> in
  \<open>b\<close>: \<^verbatim>\<open>continue\<close> below \<open>blo\<close>, \<^verbatim>\<open>break\<close> from \<open>bhi\<close> on. Its state is the new
  dictionary \<^verbatim>\<open>newj2len\<close> and the best match so far.
\<close>

fun flm_inner ::
  "int \<Rightarrow> int \<Rightarrow> int \<Rightarrow> (int \<rightharpoonup> int) \<Rightarrow> int list
     \<Rightarrow> (int \<rightharpoonup> int) \<times> int \<times> int \<times> int \<Rightarrow> (int \<rightharpoonup> int) \<times> int \<times> int \<times> int" where
  "flm_inner blo bhi i j2len [] st = st"
| "flm_inner blo bhi i j2len (j # js) (newj2len, besti, bestj, bestsize) =
     (if j < blo then flm_inner blo bhi i j2len js (newj2len, besti, bestj, bestsize)
      else if j \<ge> bhi then (newj2len, besti, bestj, bestsize)
      else
        let k = (case j2len (j - 1) of None \<Rightarrow> 0 | Some v \<Rightarrow> v) + 1 in
        if k > bestsize then
          flm_inner blo bhi i j2len js (newj2len(j \<mapsto> k), i - k + 1, j - k + 1, k)
        else flm_inner blo bhi i j2len js (newj2len(j \<mapsto> k), besti, bestj, bestsize))"

text \<open>One round of the outer loop, for the row \<open>i\<close>; \<^verbatim>\<open>j2len = newj2len\<close> at its end.\<close>

definition flm_row ::
  "'a list \<Rightarrow> ('a \<rightharpoonup> int list) \<Rightarrow> int \<Rightarrow> int \<Rightarrow> int
     \<Rightarrow> (int \<rightharpoonup> int) \<times> int \<times> int \<times> int \<Rightarrow> (int \<rightharpoonup> int) \<times> int \<times> int \<times> int" where
  "flm_row a b2j blo bhi i st =
     (case st of (j2len, besti, bestj, bestsize) \<Rightarrow>
        flm_inner blo bhi i j2len
          (case b2j (a ! nat i) of None \<Rightarrow> [] | Some js \<Rightarrow> js)
          (Map.empty, besti, bestj, bestsize))"

text \<open>
  The four \<^verbatim>\<open>while\<close> loops that extend the match, to the left and to the right: the
  first two over elements that are not junk, the last two over junk. \<open>junk\<close> is the value
  the loop asks of \<^verbatim>\<open>isbjunk\<close>.
\<close>

function extend_left ::
  "'a list \<Rightarrow> 'a list \<Rightarrow> ('a \<Rightarrow> bool) \<Rightarrow> bool \<Rightarrow> int \<Rightarrow> int \<Rightarrow> int \<times> int \<times> int
     \<Rightarrow> int \<times> int \<times> int" where
  "extend_left a b isbjunk junk alo blo (besti, bestj, bestsize) =
     (if besti > alo \<and> bestj > blo \<and> isbjunk (b ! nat (bestj - 1)) = junk
         \<and> a ! nat (besti - 1) = b ! nat (bestj - 1)
      then extend_left a b isbjunk junk alo blo (besti - 1, bestj - 1, bestsize + 1)
      else (besti, bestj, bestsize))"
  by pat_completeness auto
termination
  by (relation "measure (\<lambda>(a, b, isbjunk, junk, alo, blo, besti, bestj, bestsize).
        nat (besti - alo))") auto

function extend_right ::
  "'a list \<Rightarrow> 'a list \<Rightarrow> ('a \<Rightarrow> bool) \<Rightarrow> bool \<Rightarrow> int \<Rightarrow> int \<Rightarrow> int \<times> int \<times> int
     \<Rightarrow> int \<times> int \<times> int" where
  "extend_right a b isbjunk junk ahi bhi (besti, bestj, bestsize) =
     (if besti + bestsize < ahi \<and> bestj + bestsize < bhi
         \<and> isbjunk (b ! nat (bestj + bestsize)) = junk
         \<and> a ! nat (besti + bestsize) = b ! nat (bestj + bestsize)
      then extend_right a b isbjunk junk ahi bhi (besti, bestj, bestsize + 1)
      else (besti, bestj, bestsize))"
  by pat_completeness auto
termination
  by (relation "measure (\<lambda>(a, b, isbjunk, junk, ahi, bhi, besti, bestj, bestsize).
        nat (ahi - (besti + bestsize)))") auto

declare extend_left.simps [simp del] extend_right.simps [simp del]

text \<open>
  \<^verbatim>\<open>find_longest_match(alo, ahi, blo, bhi)\<close>. With \<^verbatim>\<open>isjunk = None\<close> the set
  \<^verbatim>\<open>bjunk\<close> is empty, so \<^verbatim>\<open>isbjunk\<close> is false of every element.
\<close>

definition find_longest_match ::
  "'a list \<Rightarrow> 'a list \<Rightarrow> ('a \<rightharpoonup> int list) \<Rightarrow> int \<Rightarrow> int \<Rightarrow> int \<Rightarrow> int
     \<Rightarrow> int \<times> int \<times> int" where
  "find_longest_match a b b2j alo ahi blo bhi =
     (case fold (flm_row a b2j blo bhi) [alo..ahi - 1] (Map.empty, alo, blo, 0) of
        (j2len, besti, bestj, bestsize) \<Rightarrow>
          extend_right a b (\<lambda>x. False) True ahi bhi
            (extend_left a b (\<lambda>x. False) True alo blo
              (extend_right a b (\<lambda>x. False) False ahi bhi
                (extend_left a b (\<lambda>x. False) False alo blo (besti, bestj, bestsize)))))"

text \<open>
  The match lies inside the window of \<open>a\<close> it was searched in. The bounds hold for every
  argument, and they are what makes the loop of \<^verbatim>\<open>get_matching_blocks\<close> end: the
  windows it pushes are smaller than the one it popped.
\<close>

lemma flm_inner_bounds:
  assumes "\<forall>j v. j2len j = Some v \<longrightarrow> v \<le> i - alo"
    and "alo \<le> i"
    and "\<forall>j v. newj2len j = Some v \<longrightarrow> v \<le> i + 1 - alo"
    and "alo \<le> besti" "besti + bestsize \<le> i + 1" "0 \<le> bestsize"
    and "flm_inner blo bhi i j2len js (newj2len, besti, bestj, bestsize) = (m, bi, bj, bs)"
  shows "(\<forall>j v. m j = Some v \<longrightarrow> v \<le> i + 1 - alo) \<and> alo \<le> bi \<and> bi + bs \<le> i + 1 \<and> 0 \<le> bs"
  using assms(3-)
proof (induction js arbitrary: newj2len besti bestj bestsize)
  case Nil
  then show ?case by simp
next
  case (Cons j js)
  show ?case
  proof (cases "j < blo")
    case True
    with Cons.prems have "flm_inner blo bhi i j2len js (newj2len, besti, bestj, bestsize) = (m, bi, bj, bs)"
      by simp
    from Cons.IH [OF Cons.prems(1-4) this] show ?thesis .
  next
    case False
    note nlo = this
    show ?thesis
    proof (cases "j \<ge> bhi")
      case True
      with nlo Cons.prems show ?thesis by simp
    next
      case False
      define k where "k = (case j2len (j - 1) of None \<Rightarrow> 0 | Some v \<Rightarrow> v) + 1"
      have kb: "k \<le> i + 1 - alo"
        using assms(1,2) by (auto simp: k_def split: option.splits)
      have nm: "\<forall>j' v. (newj2len(j \<mapsto> k)) j' = Some v \<longrightarrow> v \<le> i + 1 - alo"
        using Cons.prems(1) kb by auto
      show ?thesis
      proof (cases "k > bestsize")
        case True
        with nlo False Cons.prems(5)
        have r: "flm_inner blo bhi i j2len js (newj2len(j \<mapsto> k), i - k + 1, j - k + 1, k) = (m, bi, bj, bs)"
          by (simp add: k_def Let_def)
        show ?thesis
          by (rule Cons.IH [OF nm _ _ _ r]) (use kb True Cons.prems(4) in simp_all)
      next
        case b: False
        with nlo False Cons.prems(5)
        have r: "flm_inner blo bhi i j2len js (newj2len(j \<mapsto> k), besti, bestj, bestsize) = (m, bi, bj, bs)"
          by (simp add: k_def Let_def)
        show ?thesis
          by (rule Cons.IH [OF nm Cons.prems(2-4) r])
      qed
    qed
  qed
qed

lemma flm_fold_bounds:
  assumes "alo \<le> hi + 1"
    and "fold (flm_row a b2j blo bhi) [alo..hi] (Map.empty, alo, blo, 0) = (j2len, bi, bj, bs)"
  shows "(\<forall>j v. j2len j = Some v \<longrightarrow> v \<le> hi + 1 - alo) \<and> alo \<le> bi \<and> bi + bs \<le> hi + 1 \<and> 0 \<le> bs"
  using assms
proof (induction "nat (hi + 1 - alo)" arbitrary: hi j2len bi bj bs)
  case 0
  then have "[alo..hi] = []" by simp
  with 0 show ?case by auto
next
  case (Suc n)
  then have le: "alo \<le> hi" by simp
  then have u: "[alo..hi] = [alo..hi - 1] @ [hi]" by (rule upto_rec2)
  obtain j0 bi0 bj0 bs0 where
    p: "fold (flm_row a b2j blo bhi) [alo..hi - 1] (Map.empty, alo, blo, 0) = (j0, bi0, bj0, bs0)"
    by (metis prod_cases4)
  have "n = nat (hi - 1 + 1 - alo)" using Suc.hyps(2) by simp
  from Suc.hyps(1) [OF this _ p] le
  have ih: "\<forall>j v. j0 j = Some v \<longrightarrow> v \<le> hi - alo" "alo \<le> bi0" "bi0 + bs0 \<le> hi" "0 \<le> bs0"
    by simp_all
  from Suc.prems(2) have
    "flm_inner blo bhi hi j0 (case b2j (a ! nat hi) of None \<Rightarrow> [] | Some js \<Rightarrow> js)
       (Map.empty, bi0, bj0, bs0) = (j2len, bi, bj, bs)"
    unfolding u by (simp add: p flm_row_def)
  from flm_inner_bounds [OF ih(1) le _ ih(2) _ ih(4) this] ih(3)
  show ?case by simp
qed

lemma extend_left_bounds:
  assumes "extend_left a b isbjunk junk alo blo (i, j, k) = (i', j', k')"
  shows "i' + k' = i + k \<and> j' + k' = j + k \<and> k \<le> k' \<and> (alo \<le> i \<longrightarrow> alo \<le> i') \<and> i' \<le> i
       \<and> i' - j' = i - j"
  using assms
proof (induction a b isbjunk junk alo blo "(i, j, k)" arbitrary: i j k rule: extend_left.induct)
  case (1 a b isbjunk junk alo blo besti bestj bestsize)
  show ?case
  proof (cases "besti > alo \<and> bestj > blo \<and> isbjunk (b ! nat (bestj - 1)) = junk
         \<and> a ! nat (besti - 1) = b ! nat (bestj - 1)")
    case True
    with 1(2) have "extend_left a b isbjunk junk alo blo (besti - 1, bestj - 1, bestsize + 1) = (i', j', k')"
      by (subst (asm) extend_left.simps) simp
    from 1(1) [OF True this] True show ?thesis by auto
  next
    case False
    with 1(2) show ?thesis by (subst (asm) extend_left.simps) auto
  qed
qed

lemma extend_right_bounds:
  assumes "extend_right a b isbjunk junk ahi bhi (i, j, k) = (i', j', k')"
  shows "i' = i \<and> j' = j \<and> k \<le> k' \<and> (i + k \<le> ahi \<longrightarrow> i' + k' \<le> ahi)"
  using assms
proof (induction a b isbjunk junk ahi bhi "(i, j, k)" arbitrary: i j k rule: extend_right.induct)
  case (1 a b isbjunk junk ahi bhi besti bestj bestsize)
  show ?case
  proof (cases "besti + bestsize < ahi \<and> bestj + bestsize < bhi
         \<and> isbjunk (b ! nat (bestj + bestsize)) = junk
         \<and> a ! nat (besti + bestsize) = b ! nat (bestj + bestsize)")
    case True
    with 1(2) have "extend_right a b isbjunk junk ahi bhi (besti, bestj, bestsize + 1) = (i', j', k')"
      by (subst (asm) extend_right.simps) simp
    from 1(1) [OF True this] True show ?thesis by auto
  next
    case False
    with 1(2) show ?thesis by (subst (asm) extend_right.simps) auto
  qed
qed

lemma find_longest_match_bounds:
  assumes "find_longest_match a b b2j alo ahi blo bhi = (i, j, k)"
  shows "0 \<le> k \<and> (k \<noteq> 0 \<longrightarrow> alo \<le> i \<and> i + k \<le> ahi)"
proof -
  obtain m bi bj bs where
    f: "fold (flm_row a b2j blo bhi) [alo..ahi - 1] (Map.empty, alo, blo, 0) = (m, bi, bj, bs)"
    by (metis prod_cases4)
  obtain i1 j1 k1 where e1: "extend_left a b (\<lambda>x. False) False alo blo (bi, bj, bs) = (i1, j1, k1)"
    by (metis prod_cases3)
  obtain i2 j2 k2 where e2: "extend_right a b (\<lambda>x. False) False ahi bhi (i1, j1, k1) = (i2, j2, k2)"
    by (metis prod_cases3)
  obtain i3 j3 k3 where e3: "extend_left a b (\<lambda>x. False) True alo blo (i2, j2, k2) = (i3, j3, k3)"
    by (metis prod_cases3)
  have e4: "extend_right a b (\<lambda>x. False) True ahi bhi (i3, j3, k3) = (i, j, k)"
    using assms by (simp add: find_longest_match_def f e1 e2 e3)
  note b1 = extend_left_bounds [OF e1] and b2 = extend_right_bounds [OF e2]
    and b3 = extend_left_bounds [OF e3] and b4 = extend_right_bounds [OF e4]
  show ?thesis
  proof (cases "alo \<le> ahi")
    case True
    then have "alo \<le> ahi - 1 + 1" by simp
    from flm_fold_bounds [OF this f]
    have "alo \<le> bi" "bi + bs \<le> ahi" "0 \<le> bs" by simp_all
    with b1 b2 b3 b4 show ?thesis by auto
  next
    case False
    then have "[alo..ahi - 1] = []" by simp
    with f have s: "bi = alo" "bs = 0" by simp_all
    from e1 False have "i1 = alo \<and> k1 = 0"
      by (subst (asm) extend_left.simps) (simp add: s)
    with e2 False have "i2 = alo \<and> k2 = 0"
      by (subst (asm) extend_right.simps) simp
    with e3 False have "i3 = alo \<and> k3 = 0"
      by (subst (asm) extend_left.simps) simp
    with e4 False have "i = alo \<and> k = 0"
      by (subst (asm) extend_right.simps) simp
    then show ?thesis by simp
  qed
qed

text \<open>
  \<^verbatim>\<open>get_matching_blocks\<close>. The list \<^verbatim>\<open>queue\<close> is used as a stack (\<^verbatim>\<open>queue.pop()\<close>
  takes the entry appended last); in the model its top is the head of the list.
  \<open>match_step\<close> is the body of the \<^verbatim>\<open>while\<close> loop for the entry popped: the entries
  it pushes, top first, and the block it appends to \<^verbatim>\<open>matching_blocks\<close>.
\<close>

definition match_step ::
  "'a list \<Rightarrow> 'a list \<Rightarrow> ('a \<rightharpoonup> int list) \<Rightarrow> int \<times> int \<times> int \<times> int
     \<Rightarrow> (int \<times> int \<times> int \<times> int) list \<times> (int \<times> int \<times> int) list" where
  "match_step a b b2j q =
     (case q of (alo, ahi, blo, bhi) \<Rightarrow>
        (case find_longest_match a b b2j alo ahi blo bhi of (i, j, k) \<Rightarrow>
           if k \<noteq> 0 then
             ((if i + k < ahi \<and> j + k < bhi then [(i + k, ahi, j + k, bhi)] else [])
                @ (if alo < i \<and> blo < j then [(alo, i, blo, j)] else []),
              [(i, j, k)])
           else ([], [])))"

definition queue_weight :: "(int \<times> int \<times> int \<times> int) list \<Rightarrow> nat" where
  "queue_weight queue = sum_list (map (\<lambda>(alo, ahi, blo, bhi). 2 * nat (ahi - alo) + 1) queue)"

lemma match_step_weight:
  "queue_weight (fst (match_step a b b2j q)) < queue_weight [q]"
proof -
  obtain alo ahi blo bhi where q: "q = (alo, ahi, blo, bhi)" by (metis prod_cases4)
  obtain i j k where f: "find_longest_match a b b2j alo ahi blo bhi = (i, j, k)"
    by (metis prod_cases3)
  from find_longest_match_bounds [OF f]
  have "0 \<le> k" "k \<noteq> 0 \<longrightarrow> alo \<le> i \<and> i + k \<le> ahi" by simp_all
  then show ?thesis
    by (auto simp: match_step_def q f queue_weight_def)
qed

function matching_loop ::
  "'a list \<Rightarrow> 'a list \<Rightarrow> ('a \<rightharpoonup> int list) \<Rightarrow> (int \<times> int \<times> int \<times> int) list
     \<Rightarrow> (int \<times> int \<times> int) list \<Rightarrow> (int \<times> int \<times> int) list" where
  "matching_loop a b b2j [] matching_blocks = matching_blocks"
| "matching_loop a b b2j (q # queue) matching_blocks =
     matching_loop a b b2j (fst (match_step a b b2j q) @ queue)
       (matching_blocks @ snd (match_step a b b2j q))"
  by pat_completeness auto
termination
proof (relation "measure (\<lambda>(a, b, b2j, queue, matching_blocks). queue_weight queue)")
  show "wf (measure (\<lambda>(a, b, b2j, queue, matching_blocks). queue_weight queue))" by simp
next
  fix a b :: "'a list" and b2j :: "'a \<rightharpoonup> int list" and q queue
    and matching_blocks :: "(int \<times> int \<times> int) list"
  have "queue_weight (fst (match_step a b b2j q) @ queue)
          = queue_weight (fst (match_step a b b2j q)) + queue_weight queue"
    by (simp add: queue_weight_def)
  moreover have "queue_weight (q # queue) = queue_weight [q] + queue_weight queue"
    by (simp add: queue_weight_def)
  ultimately show "((a, b, b2j, fst (match_step a b b2j q) @ queue,
            matching_blocks @ snd (match_step a b b2j q)),
           (a, b, b2j, q # queue, matching_blocks))
          \<in> measure (\<lambda>(a, b, b2j, queue, matching_blocks). queue_weight queue)"
    using match_step_weight [of a b b2j q] by simp
qed

text \<open>The loop that merges adjacent blocks; its state is \<^verbatim>\<open>i1, j1, k1\<close>.\<close>

fun non_adjacent :: "int \<times> int \<times> int \<Rightarrow> (int \<times> int \<times> int) list \<Rightarrow> (int \<times> int \<times> int) list" where
  "non_adjacent (i1, j1, k1) [] = (if k1 \<noteq> 0 then [(i1, j1, k1)] else [])"
| "non_adjacent (i1, j1, k1) ((i2, j2, k2) # rest) =
     (if i1 + k1 = i2 \<and> j1 + k1 = j2 then non_adjacent (i1, j1, k1 + k2) rest
      else (if k1 \<noteq> 0 then [(i1, j1, k1)] else []) @ non_adjacent (i2, j2, k2) rest)"

text \<open>
  \<^verbatim>\<open>matching_blocks.sort()\<close> orders the triples lexicographically, as the order on
  products does.
\<close>

definition get_matching_blocks :: "'a list \<Rightarrow> 'a list \<Rightarrow> (int \<times> int \<times> int) list" where
  "get_matching_blocks a b =
     (let la = int (length a); lb = int (length b);
          matching_blocks = sort (matching_loop a b (chain_b b) [(0, la, 0, lb)] [])
      in non_adjacent (0, 0, 0) matching_blocks @ [(la, lb, 0)])"

text \<open>\<^verbatim>\<open>get_opcodes\<close>: the tags and the five-tuples.\<close>

datatype tag = Replace | Delete | Insert | Equal

type_synonym opcode = "tag \<times> int \<times> int \<times> int \<times> int"

fun opcodes_loop :: "int \<Rightarrow> int \<Rightarrow> (int \<times> int \<times> int) list \<Rightarrow> opcode list" where
  "opcodes_loop i j [] = []"
| "opcodes_loop i j ((ai, bj, size') # rest) =
     (if i < ai \<and> j < bj then [(Replace, i, ai, j, bj)]
      else if i < ai then [(Delete, i, ai, j, bj)]
      else if j < bj then [(Insert, i, ai, j, bj)]
      else [])
     @ (if size' \<noteq> 0 then [(Equal, ai, ai + size', bj, bj + size')] else [])
     @ opcodes_loop (ai + size') (bj + size') rest"

definition get_opcodes :: "'a list \<Rightarrow> 'a list \<Rightarrow> opcode list" where
  "get_opcodes a b = opcodes_loop 0 0 (get_matching_blocks a b)"

text \<open>
  \<^verbatim>\<open>get_grouped_opcodes(n)\<close>: the two fix-ups of the first and the last code, and the
  loop that cuts the codes into groups. The loop's state is the current \<^verbatim>\<open>group\<close> (\<open>group'\<close>); its
  value is the list of the groups it yields.
\<close>

definition fix_first :: "int \<Rightarrow> opcode list \<Rightarrow> opcode list" where
  "fix_first n codes =
     (case codes of
        (Equal, i1, i2, j1, j2) # rest \<Rightarrow> (Equal, max i1 (i2 - n), i2, max j1 (j2 - n), j2) # rest
      | _ \<Rightarrow> codes)"

definition fix_last :: "int \<Rightarrow> opcode list \<Rightarrow> opcode list" where
  "fix_last n codes =
     (case last codes of
        (Equal, i1, i2, j1, j2) \<Rightarrow>
          butlast codes @ [(Equal, i1, min i2 (i1 + n), j1, min j2 (j1 + n))]
      | _ \<Rightarrow> codes)"

fun group_loop :: "int \<Rightarrow> opcode list \<Rightarrow> opcode list \<Rightarrow> opcode list list" where
  "group_loop n [] group' =
     (if group' \<noteq> [] \<and> \<not> (length group' = 1 \<and> fst (hd group') = Equal) then [group'] else [])"
| "group_loop n ((tag, i1, i2, j1, j2) # codes) group' =
     (if tag = Equal \<and> i2 - i1 > n + n then
        (group' @ [(tag, i1, min i2 (i1 + n), j1, min j2 (j1 + n))])
          # group_loop n codes [(tag, max i1 (i2 - n), i2, max j1 (j2 - n), j2)]
      else group_loop n codes (group' @ [(tag, i1, i2, j1, j2)]))"

definition get_grouped_opcodes :: "'a list \<Rightarrow> 'a list \<Rightarrow> int \<Rightarrow> opcode list list" where
  "get_grouped_opcodes a b n =
     (let codes = get_opcodes a b;
          codes = (if codes = [] then [(Equal, 0, 1, 0, 1)] else codes)
      in group_loop n (fix_last n (fix_first n codes)) [])"

subsection \<open>unified\_diff\<close>

text \<open>
  A decoded operation, as \<^verbatim>\<open>unified_diff\<close> sees it. The class of the operations is
  not among the source files; the three texts the formatters build are parameters:
  \<^verbatim>\<open>str(op.attr)\<close>, \<^verbatim>\<open>str(op)\<close> and the list of the \<^verbatim>\<open>str(x)\<close> for \<open>x\<close> in
  \<^verbatim>\<open>op.cmd\<close>.
\<close>

record 'op op_view =
  str_attr :: "'op \<Rightarrow> string"
  str_op :: "'op \<Rightarrow> string"
  str_cmd :: "'op \<Rightarrow> string list"

text \<open>The dictionary \<^verbatim>\<open>fmt_op\<close> and the lookup \<^verbatim>\<open>fmt_op[format]\<close>, lines 69 to 74.\<close>

definition fmt_op :: "'op op_view \<Rightarrow> string \<Rightarrow> error + ('op \<Rightarrow> string)" where
  "fmt_op view format =
     (if format = ''raw'' then Inr (\<lambda>op. str_attr view op)
      else if format = ''mlir'' then Inr (\<lambda>op. str_op view op)
      else if format = ''bits'' then Inr (\<lambda>op. concat (str_cmd view op))
      else Inl (KeyError format))"

text \<open>
  The slice \<^verbatim>\<open>xs[i:j]\<close> of Python: a negative bound counts from the end, and both
  bounds are cut to the length of the list.
\<close>

definition py_slice :: "'a list \<Rightarrow> int \<Rightarrow> int \<Rightarrow> 'a list" where
  "py_slice xs i j =
     (let n = int (length xs);
          lo = (if i < 0 then max (i + n) 0 else min i n);
          hi = (if j < 0 then max (j + n) 0 else min j n)
      in take (nat (hi - lo)) (drop (nat lo) xs))"

text \<open>\<^verbatim>\<open>difflib._format_range_unified(start, stop)\<close>.\<close>

definition format_range_unified :: "int \<Rightarrow> int \<Rightarrow> string" where
  "format_range_unified start stop =
     (let beginning = start + 1; length' = stop - start in
      if length' = 1 then str_int beginning
      else str_int (if length' = 0 then beginning - 1 else beginning) @ '','' @ str_int length')"

text \<open>The lines of one opcode, lines 89 to 99.\<close>

definition opcode_lines :: "('op \<Rightarrow> string) \<Rightarrow> 'op list \<Rightarrow> 'op list \<Rightarrow> opcode \<Rightarrow> string list" where
  "opcode_lines fmt a b code =
     (case code of (tag, i1, i2, j1, j2) \<Rightarrow>
        if tag = Equal then map (\<lambda>line. ''    '' @ fmt line) (py_slice a i1 i2)
        else
          (if tag = Replace \<or> tag = Delete
           then map (\<lambda>line. ''-   '' @ fmt line) (py_slice a i1 i2) else [])
          @ (if tag = Replace \<or> tag = Insert
             then map (\<lambda>line. ''+   '' @ fmt line) (py_slice b j1 j2) else []))"

text \<open>The lines of one group, lines 84 to 100: the range header, the lines, the empty line.\<close>

definition group_lines :: "('op \<Rightarrow> string) \<Rightarrow> 'op list \<Rightarrow> 'op list \<Rightarrow> opcode list \<Rightarrow> string list" where
  "group_lines fmt a b group' =
     (case (hd group', last group') of
        ((t1, first1, first2, first3, first4), (t2, last1, last2, last3, last4)) \<Rightarrow>
          [''@@ -'' @ format_range_unified first1 last2 @ '' +''
             @ format_range_unified first3 last4 @ '' @@'' @ [CHR 0x0A]]
          @ concat (map (opcode_lines fmt a b) group')
          @ [[]])"

text \<open>The loop over the groups, lines 78 to 100, with its flag \<^verbatim>\<open>started\<close>.\<close>

fun unified_loop ::
  "('op \<Rightarrow> string) \<Rightarrow> 'op list \<Rightarrow> 'op list \<Rightarrow> string \<Rightarrow> string \<Rightarrow> bool
     \<Rightarrow> opcode list list \<Rightarrow> string list" where
  "unified_loop fmt a b fromfile tofile started [] = []"
| "unified_loop fmt a b fromfile tofile started (group' # groups) =
     (if \<not> started then [''--- '' @ fromfile, ''+++ '' @ tofile] else [])
     @ group_lines fmt a b group'
     @ unified_loop fmt a b fromfile tofile True groups"

text \<open>
  \<^verbatim>\<open>unified_diff(a, b, fromfile, tofile, n, format)\<close>, lines 59 to 100, run to its end:
  the lines it yields, or the KeyError of an unknown format, raised before the first line.
\<close>

definition unified_diff ::
  "'op op_view \<Rightarrow> 'op list \<Rightarrow> 'op list \<Rightarrow> string \<Rightarrow> string \<Rightarrow> int \<Rightarrow> string
     \<Rightarrow> error + string list" where
  "unified_diff view a b fromfile tofile n format =
     (case fmt_op view format of
        Inl e \<Rightarrow> Inl e
      | Inr fmt \<Rightarrow>
          Inr (unified_loop fmt a b fromfile tofile False (get_grouped_opcodes a b n)))"

subsection \<open>The comparison of two containers\<close>

text \<open>How the process ends: \<^verbatim>\<open>exit(status)\<close>, or an exception nobody catches.\<close>

datatype outcome = Exit int | Raised error

text \<open>
  The module \<^verbatim>\<open>BModel2MLIR\<close> returns is read through \<^verbatim>\<open>.cmd\<close> only: a sequence of pairs
  of an index path \<^verbatim>\<open>idx\<close> and a command stream, of which \<^verbatim>\<open>.all\<close> is the sequence
  of operations. A pair is modelled as the index path (integers) and that sequence.
\<close>

type_synonym 'op tpu_cmd = "(int list \<times> 'op list) list"

text \<open>
  The text printed for a pair with a diff, lines 168 to 172: the name of the function from
  the index path, and the lines of \<^verbatim>\<open>fmt_cmd\<close> but the last.
\<close>

definition func_block :: "int list \<Rightarrow> string list \<Rightarrow> string" where
  "func_block idx fmt_cmd =
     (let fun_name = ''graph'' @ concat (map str_int idx);
          fmt_cmd' = concat (butlast fmt_cmd) @ [CHR 0x0A]
      in ''func.func @'' @ fun_name @ ''() {'' @ fmt_cmd' @ ''}'')"

text \<open>
  The loop of lines 156 to 172 over the zipped pairs. Its state is the flag
  \<^verbatim>\<open>is_same\<close> and the texts printed so far; it ends early when \<^verbatim>\<open>unified_diff\<close>
  raises.
\<close>

fun compare_loop ::
  "'op op_view \<Rightarrow> string \<Rightarrow> string \<Rightarrow> int \<Rightarrow> string
     \<Rightarrow> ((int list \<times> 'op list) \<times> (int list \<times> 'op list)) list \<Rightarrow> bool \<Rightarrow> string list
     \<Rightarrow> (bool \<times> string list) \<times> error option" where
  "compare_loop view bmodel0 bmodel1 n format [] is_same printed = ((is_same, printed), None)"
| "compare_loop view bmodel0 bmodel1 n format (((idx, cmd_a), (idx_b, cmd_b)) # rest)
     is_same printed =
     (case unified_diff view cmd_a cmd_b bmodel0 bmodel1 n format of
        Inl e \<Rightarrow> ((is_same, printed), Some e)
      | Inr lines \<Rightarrow>
          let fmt_cmd = map (\<lambda>x. [CHR 0x0A] @ x) lines in
            if fmt_cmd \<noteq> [] then
              compare_loop view bmodel0 bmodel1 n format rest False
                (printed @ [func_block idx fmt_cmd])
            else compare_loop view bmodel0 bmodel1 n format rest is_same printed)"

text \<open>The message of line 174.\<close>

definition same_message :: "string \<Rightarrow> string \<Rightarrow> string" where
  "same_message bmodel0 bmodel1 =
     [CHR 0x22] @ bmodel0 @ [CHR 0x22] @ '' and '' @ [CHR 0x22] @ bmodel1 @ [CHR 0x22]
       @ '' are the same!''"

text \<open>
  The branch \<^verbatim>\<open>len(args.bmodels) == 2\<close> of \<^verbatim>\<open>__main\<close>, lines 152 to 177, on the two
  modules decoded from the two paths: what is printed, and how the process ends.
\<close>

definition main_compare ::
  "'op op_view \<Rightarrow> string \<Rightarrow> string \<Rightarrow> string \<Rightarrow> int \<Rightarrow> 'op tpu_cmd \<Rightarrow> 'op tpu_cmd
     \<Rightarrow> string list \<times> outcome" where
  "main_compare view bmodel0 bmodel1 format n tpu_cmd_a tpu_cmd_b =
     (case compare_loop view bmodel0 bmodel1 n format (zip tpu_cmd_a tpu_cmd_b) True [] of
        ((is_same, printed), Some e) \<Rightarrow> (printed, Raised e)
      | ((is_same, printed), None) \<Rightarrow>
          if is_same then (printed @ [same_message bmodel0 bmodel1], Exit 0)
          else (printed, Exit 1))"

subsection \<open>Notions used in the proofs about the sequence matcher\<close>

text \<open>The positions of \<open>x\<close> in a list, counted from \<open>i\<close>.\<close>

fun positions :: "int \<Rightarrow> 'a list \<Rightarrow> 'a \<Rightarrow> int list" where
  "positions i [] x = []"
| "positions i (e # rest) x = (if e = x then [i] else []) @ positions (i + 1) rest x"

text \<open>An element is indexed when \<open>b2j\<close> has it: it occurs, and it is not popular.\<close>

definition indexed :: "'a list \<Rightarrow> 'a \<Rightarrow> bool" where
  "indexed b x \<longleftrightarrow> chain_b b x \<noteq> None"

text \<open>The length of the run of indexed elements of \<open>a\<close> that ends before position \<open>n\<close>.\<close>

fun run :: "'a list \<Rightarrow> nat \<Rightarrow> nat" where
  "run a 0 = 0"
| "run a (Suc n) = (if indexed a (a ! n) then Suc (run a n) else 0)"

text \<open>
  The invariant of the outer loop of \<open>find_longest_match\<close> when a sequence is matched
  against itself, before the row \<open>n\<close>: the best match lies on the diagonal and is at
  least as long as every run of indexed elements seen so far.
\<close>

definition diag_inv :: "'a list \<Rightarrow> nat \<Rightarrow> (int \<rightharpoonup> int) \<times> int \<times> int \<times> int \<Rightarrow> bool" where
  "diag_inv a n st \<longleftrightarrow>
     (case st of (j2len, besti, bestj, bestsize) \<Rightarrow>
        (\<forall>j v. j2len j = Some v \<longrightarrow>
           0 \<le> j \<and> 1 \<le> v \<and> v \<le> int (run a (nat j + 1)) \<and> v \<le> int (run a n))
      \<and> (n \<ge> 1 \<and> indexed a (a ! (n - 1)) \<longrightarrow> j2len (int n - 1) = Some (int (run a n)))
      \<and> besti = bestj
      \<and> (\<forall>m \<le> n. int (run a m) \<le> bestsize))"

section \<open>Properties of the device context\<close>

text \<open>
  C6. For each of the two supported device identifiers, given as the string or as the
  enumeration member, construction succeeds, the context carries the modules the registry
  pairs with the device, and the accessors \<^verbatim>\<open>memmap\<close> and \<^verbatim>\<open>MemRef\<close> return the members
  of that operand-layout module. For every other argument construction raises, and no
  context is returned.
\<close>

theorem Context_init_supported_or_fails:
  "(\<forall>d. Context_init (PyStr (Device_value d)) =
          Inr \<lparr>opdef = fst (registry d), opparam = snd (registry d), device = d\<rparr>
      \<and> Context_init (PyDevice d) =
          Inr \<lparr>opdef = fst (registry d), opparam = snd (registry d), device = d\<rparr>
      \<and> memmap \<lparr>opdef = fst (registry d), opparam = snd (registry d), device = d\<rparr> =
          ModuleAttr (snd (registry d)) ''memmap''
      \<and> MemRef \<lparr>opdef = fst (registry d), opparam = snd (registry d), device = d\<rparr> =
          ModuleAttr (snd (registry d)) ''MemRef'')
   \<and> (\<forall>arg. arg \<notin> {PyStr ''BM1684X'', PyStr ''BM1684'', PyDevice BM1684X, PyDevice BM1684}
        \<longrightarrow> Context_init arg = Inl (ValueError_not_a_valid_Device arg))"
proof (intro conjI allI impI)
  fix d
  show "Context_init (PyStr (Device_value d)) =
          Inr \<lparr>opdef = fst (registry d), opparam = snd (registry d), device = d\<rparr>"
    by (cases d) (simp_all add: Context_init_def)
  show "Context_init (PyDevice d) =
          Inr \<lparr>opdef = fst (registry d), opparam = snd (registry d), device = d\<rparr>"
    by (cases d) (simp_all add: Context_init_def)
  show "memmap \<lparr>opdef = fst (registry d), opparam = snd (registry d), device = d\<rparr> =
          ModuleAttr (snd (registry d)) ''memmap''"
    by (simp add: memmap_def)
  show "MemRef \<lparr>opdef = fst (registry d), opparam = snd (registry d), device = d\<rparr> =
          ModuleAttr (snd (registry d)) ''MemRef''"
    by (simp add: MemRef_def)
next
  fix arg :: pyarg
  assume out: "arg \<notin> {PyStr ''BM1684X'', PyStr ''BM1684'', PyDevice BM1684X, PyDevice BM1684}"
  show "Context_init arg = Inl (ValueError_not_a_valid_Device arg)"
  proof (cases arg)
    case (PyStr s)
    with out show ?thesis by (simp add: Context_init_def)
  next
    case (PyDevice d)
    with out show ?thesis by (cases d) simp_all
  next
    case PyOther
    then show ?thesis by (simp add: Context_init_def)
  qed
qed

theorem Context_init_supported_or_fails_witness:
  "Context_init (PyStr ''BM1684X'') =
     Inr \<lparr>opdef = opdef_1684x, opparam = opparam_1684x, device = BM1684X\<rparr>
   \<and> Context_init (PyStr ''bm1684x'') = Inl (ValueError_not_a_valid_Device (PyStr ''bm1684x''))
   \<and> Context_init PyOther = Inl (ValueError_not_a_valid_Device PyOther)"
proof -
  have a: "PyStr ''bm1684x'' \<notin>
             {PyStr ''BM1684X'', PyStr ''BM1684'', PyDevice BM1684X, PyDevice BM1684}"
    by simp
  have b: "PyOther \<notin>
             {PyStr ''BM1684X'', PyStr ''BM1684'', PyDevice BM1684X, PyDevice BM1684}"
    by simp
  from Context_init_supported_or_fails
  have s: "Context_init (PyStr (Device_value BM1684X)) =
             Inr \<lparr>opdef = fst (registry BM1684X), opparam = snd (registry BM1684X),
                  device = BM1684X\<rparr>"
    and f: "\<forall>arg. arg \<notin> {PyStr ''BM1684X'', PyStr ''BM1684'', PyDevice BM1684X, PyDevice BM1684}
              \<longrightarrow> Context_init arg = Inl (ValueError_not_a_valid_Device arg)"
    by blast+
  from s f a b show ?thesis by simp
qed

text \<open>
  C10. The last branch of the constructor is dead: whatever the argument, construction
  never raises the "Unknown device" error of line 45. An argument the enumeration does not
  accept has already raised at line 30, and each of the two members is taken by one of the
  two explicit branches.
\<close>

theorem Context_init_never_Unknown_device:
  "Context_init arg \<noteq> Inl (ValueError_Unknown_device x)"
proof (cases "Device_call arg")
  case (Inl e)
  then have "e \<noteq> ValueError_Unknown_device x"
    by (cases arg) (auto split: if_splits)
  with Inl show ?thesis by (simp add: Context_init_def)
next
  case (Inr d)
  then show ?thesis by (cases d) (simp_all add: Context_init_def)
qed

text \<open>
  C7. On either device, a tensor descriptor whose height padding is not zero makes
  \<^verbatim>\<open>tensor2memref\<close> fail with the assertion of line 103; no memory reference is built.
\<close>

theorem tensor2memref_pad_h_fails:
  "pad_h t \<noteq> 0 \<Longrightarrow> tensor2memref os self t = Inl AssertionError_pad_h"
  by (simp add: tensor2memref_def)

theorem tensor2memref_pad_h_fails_witness:
  "tensor2memref
     \<lparr>DType = Inr, itemsize = (\<lambda>c. 4 :: int), get_continuous_stride = (\<lambda>s. s)\<rparr>
     \<lparr>opdef = opdef_1684, opparam = opparam_1684, device = BM1684\<rparr>
     \<lparr>pad_h = 1, dtype = 0, st_mode = 0, shape = [[1, 3, 8, 8]], device_addr = 4096\<rparr>
   = Inl AssertionError_pad_h"
  using tensor2memref_pad_h_fails
    [of "\<lparr>pad_h = 1, dtype = 0, st_mode = 0, shape = [[1, 3, 8, 8]], device_addr = 4096\<rparr>"
        "\<lparr>DType = Inr, itemsize = (\<lambda>c. 4 :: int), get_continuous_stride = (\<lambda>s. s)\<rparr>"
        "\<lparr>opdef = opdef_1684, opparam = opparam_1684, device = BM1684\<rparr>"]
  by simp

text \<open>
  C3, as the code has it. For a descriptor with zero height padding: a data type code
  that \<^verbatim>\<open>op_support.DType\<close> rejects raises its exception; otherwise, with a packed
  storage mode (1 or 2, the 2N and 4N modes), the method fails with the assertion of line
  106 on every device but BM1684, so it succeeds on BM1684 only; there it raises
  ZeroDivisionError for an item size of zero and IndexError for an empty shape sequence,
  and else returns the memory reference whose stride is the contiguous stride of the first
  shape, each entry multiplied by \<^verbatim>\<open>4 // itemsize\<close> in 64-bit signed arithmetic, with
  the layout \<^verbatim>\<open>continuous_XN\<close>. With any other storage mode it raises IndexError for an
  empty shape sequence and else returns, on either device, the memory reference with the
  contiguous stride itself and no layout.
\<close>

theorem tensor2memref_storage_mode:
  assumes "pad_h t = 0"
  shows
    "(\<forall>e. DType os (dtype t) = Inl e \<longrightarrow> tensor2memref os self t = Inl e)
   \<and> (st_mode t = 1 \<or> st_mode t = 2 \<longrightarrow>
        (\<forall>m. tensor2memref os self t = Inr m \<longrightarrow> device self = BM1684))
   \<and> (\<forall>dt. DType os (dtype t) = Inr dt \<longrightarrow>
        (st_mode t = 1 \<or> st_mode t = 2 \<longrightarrow>
            (device self \<noteq> BM1684 \<longrightarrow> tensor2memref os self t = Inl AssertionError_device)
          \<and> (device self = BM1684 \<and> itemsize os dt = 0 \<longrightarrow>
                tensor2memref os self t = Inl ZeroDivisionError)
          \<and> (device self = BM1684 \<and> itemsize os dt \<noteq> 0 \<and> shape t = [] \<longrightarrow>
                tensor2memref os self t = Inl IndexError)
          \<and> (\<forall>s0 rest. device self = BM1684 \<and> itemsize os dt \<noteq> 0 \<and> shape t = s0 # rest \<longrightarrow>
                tensor2memref os self t =
                  Inr \<lparr>mr_class = ModuleAttr (opparam self) ''MemRef'',
                       mr_address = device_addr t, mr_shape = s0, mr_dtype = dt,
                       mr_stride = map (\<lambda>x. (x * (4 div itemsize os dt) + 2 ^ 63) mod 2 ^ 64
                                            - 2 ^ 63)
                                     (get_continuous_stride os s0),
                       mr_layout = Some continuous_XN\<rparr>))
      \<and> (\<not> (st_mode t = 1 \<or> st_mode t = 2) \<longrightarrow>
            (shape t = [] \<longrightarrow> tensor2memref os self t = Inl IndexError)
          \<and> (\<forall>s0 rest. shape t = s0 # rest \<longrightarrow>
                tensor2memref os self t =
                  Inr \<lparr>mr_class = ModuleAttr (opparam self) ''MemRef'',
                       mr_address = device_addr t, mr_shape = s0, mr_dtype = dt,
                       mr_stride = get_continuous_stride os s0,
                       mr_layout = None\<rparr>)))"
  using assms
  by (auto simp: tensor2memref_def Let_def MemRef_def int64_def
      split: if_splits sum.splits list.splits)

theorem tensor2memref_storage_mode_witness:
  "tensor2memref
     \<lparr>DType = Inr, itemsize = (\<lambda>c. if c = 0 then 4 else 1 :: int),
      get_continuous_stride = (\<lambda>s. map (\<lambda>i. prod_list (drop (Suc i) s)) [0..<length s])\<rparr>
     \<lparr>opdef = opdef_1684, opparam = opparam_1684, device = BM1684\<rparr>
     \<lparr>pad_h = 0, dtype = 3, st_mode = 2, shape = [[1, 3, 8, 8]], device_addr = 4096\<rparr>
   = Inr \<lparr>mr_class = ModuleAttr opparam_1684 ''MemRef'', mr_address = 4096,
          mr_shape = [1, 3, 8, 8], mr_dtype = 3, mr_stride = [768, 256, 32, 4],
          mr_layout = Some continuous_XN\<rparr>
   \<and> tensor2memref
     \<lparr>DType = Inr, itemsize = (\<lambda>c. if c = 0 then 4 else 1 :: int),
      get_continuous_stride = (\<lambda>s. map (\<lambda>i. prod_list (drop (Suc i) s)) [0..<length s])\<rparr>
     \<lparr>opdef = opdef_1684x, opparam = opparam_1684x, device = BM1684X\<rparr>
     \<lparr>pad_h = 0, dtype = 3, st_mode = 2, shape = [[1, 3, 8, 8]], device_addr = 4096\<rparr>
   = Inl AssertionError_device
   \<and> tensor2memref
     \<lparr>DType = Inr, itemsize = (\<lambda>c. if c = 0 then 4 else 1 :: int),
      get_continuous_stride = (\<lambda>s. map (\<lambda>i. prod_list (drop (Suc i) s)) [0..<length s])\<rparr>
     \<lparr>opdef = opdef_1684x, opparam = opparam_1684x, device = BM1684X\<rparr>
     \<lparr>pad_h = 0, dtype = 3, st_mode = 0, shape = [[1, 3, 8, 8]], device_addr = 4096\<rparr>
   = Inr \<lparr>mr_class = ModuleAttr opparam_1684x ''MemRef'', mr_address = 4096,
          mr_shape = [1, 3, 8, 8], mr_dtype = 3, mr_stride = [192, 64, 8, 1],
          mr_layout = None\<rparr>"
proof -
  let ?os = "\<lparr>DType = Inr, itemsize = (\<lambda>c. if c = 0 then 4 else 1 :: int),
      get_continuous_stride = (\<lambda>s. map (\<lambda>i. prod_list (drop (Suc i) s)) [0..<length s])\<rparr>"
  let ?p = "\<lparr>pad_h = 0, dtype = 3, st_mode = 2, shape = [[1, 3, 8, 8]], device_addr = 4096\<rparr>"
  let ?q = "\<lparr>pad_h = 0, dtype = 3, st_mode = 0, shape = [[1, 3, 8, 8]], device_addr = 4096\<rparr>"
  let ?x = "\<lparr>opdef = opdef_1684x, opparam = opparam_1684x, device = BM1684X\<rparr>"
  let ?y = "\<lparr>opdef = opdef_1684, opparam = opparam_1684, device = BM1684\<rparr>"
  have u: "[0..<4] = [0, 1, 2, 3]" by (simp add: upt_conv_Cons)
  have d: "drop 4 [1, 3, 8, 8 :: int] = []" "drop 3 [1, 3, 8, 8 :: int] = [8]"
    "drop 2 [1, 3, 8, 8 :: int] = [8, 8]" "drop (Suc 0) [1, 3, 8, 8 :: int] = [3, 8, 8]"
    by simp_all
  have g: "get_continuous_stride ?os [1, 3, 8, 8] = [192, 64, 8, 1]"
    by (simp add: u d)
  have p0: "pad_h ?p = 0" and q0: "pad_h ?q = 0" by simp_all
  have dt: "DType ?os (dtype ?p) = Inr 3" "DType ?os (dtype ?q) = Inr 3" by simp_all
  have a: "tensor2memref ?os ?y ?p
      = Inr \<lparr>mr_class = ModuleAttr (opparam ?y) ''MemRef'',
             mr_address = device_addr ?p, mr_shape = [1, 3, 8, 8], mr_dtype = 3,
             mr_stride = map (\<lambda>x. (x * (4 div itemsize ?os 3) + 2 ^ 63) mod 2 ^ 64 - 2 ^ 63)
                           (get_continuous_stride ?os [1, 3, 8, 8]),
             mr_layout = Some continuous_XN\<rparr>"
    using tensor2memref_storage_mode [OF p0, of ?os ?y] dt(1) by simp
  have b: "tensor2memref ?os ?x ?p = Inl AssertionError_device"
    using tensor2memref_storage_mode [OF p0, of ?os ?x] dt(1) by simp
  have c: "tensor2memref ?os ?x ?q
      = Inr \<lparr>mr_class = ModuleAttr (opparam ?x) ''MemRef'',
             mr_address = device_addr ?q, mr_shape = [1, 3, 8, 8], mr_dtype = 3,
             mr_stride = get_continuous_stride ?os [1, 3, 8, 8], mr_layout = None\<rparr>"
    using tensor2memref_storage_mode [OF q0, of ?os ?x] dt(2) by simp
  show ?thesis
    unfolding a b c g by simp
qed

text \<open>
  C3 as stated fails. A descriptor with zero height padding and an unpacked storage mode
  does not always give a memory reference: with an empty shape sequence the call raises
  IndexError, and with a data type code outside the enumeration it raises the ValueError
  of \<^verbatim>\<open>op_support.DType\<close>. And the packed stride is not the product in the integers: the
  contiguous stride is an array of 64-bit integers, so for the shape \<open>[2, 2^62]\<close> and an
  item size of one byte the first entry \<open>2^62 * 4\<close> wraps around to 0.
\<close>

theorem tensor2memref_storage_mode_counterexample:
  "tensor2memref
     \<lparr>DType = (\<lambda>c. if 0 \<le> c \<and> c < 12 then Inr c else Inl (ValueError_not_a_valid_DType c)),
      itemsize = (\<lambda>c. 1 :: int),
      get_continuous_stride = (\<lambda>s. map (\<lambda>i. prod_list (drop (Suc i) s)) [0..<length s])\<rparr>
     \<lparr>opdef = opdef_1684x, opparam = opparam_1684x, device = BM1684X\<rparr>
     \<lparr>pad_h = 0, dtype = 3, st_mode = 0, shape = [], device_addr = 4096\<rparr>
   = Inl IndexError
   \<and> tensor2memref
     \<lparr>DType = (\<lambda>c. if 0 \<le> c \<and> c < 12 then Inr c else Inl (ValueError_not_a_valid_DType c)),
      itemsize = (\<lambda>c. 1 :: int),
      get_continuous_stride = (\<lambda>s. map (\<lambda>i. prod_list (drop (Suc i) s)) [0..<length s])\<rparr>
     \<lparr>opdef = opdef_1684x, opparam = opparam_1684x, device = BM1684X\<rparr>
     \<lparr>pad_h = 0, dtype = 99, st_mode = 0, shape = [[1, 3, 8, 8]], device_addr = 4096\<rparr>
   = Inl (ValueError_not_a_valid_DType 99)
   \<and> tensor2memref
     \<lparr>DType = (\<lambda>c. if 0 \<le> c \<and> c < 12 then Inr c else Inl (ValueError_not_a_valid_DType c)),
      itemsize = (\<lambda>c. 1 :: int),
      get_continuous_stride = (\<lambda>s. map (\<lambda>i. prod_list (drop (Suc i) s)) [0..<length s])\<rparr>
     \<lparr>opdef = opdef_1684, opparam = opparam_1684, device = BM1684\<rparr>
     \<lparr>pad_h = 0, dtype = 3, st_mode = 1, shape = [[2, 4611686018427387904]],
      device_addr = 4096\<rparr>
   = Inr \<lparr>mr_class = ModuleAttr opparam_1684 ''MemRef'', mr_address = 4096,
          mr_shape = [2, 4611686018427387904], mr_dtype = 3, mr_stride = [0, 4],
          mr_layout = Some continuous_XN\<rparr>
   \<and> map (\<lambda>x. x * (4 div 1)) [4611686018427387904, 1 :: int] = [18446744073709551616, 4]"
proof -
  have u: "[0..<2] = [0, 1]" by (simp add: upt_conv_Cons)
  have d: "drop 2 [2, 4611686018427387904 :: int] = []"
    "drop (Suc 0) [2, 4611686018427387904 :: int] = [4611686018427387904]"
    by simp_all
  show ?thesis
    by (simp add: tensor2memref_def Let_def MemRef_def int64_def u d)
qed

section \<open>Properties of binary export\<close>

lemma digit_char_inj: "a < 10 \<Longrightarrow> b < 10 \<Longrightarrow> digit_char a = digit_char b \<Longrightarrow> a = b"
proof -
  assume "a < 10" "b < 10" "digit_char a = digit_char b"
  moreover have "a < 10 \<Longrightarrow> a \<in> {0,1,2,3,4,5,6,7,8,9}" for a :: nat by auto
  ultimately have "a \<in> {0,1,2,3,4,5,6,7,8,9}" "b \<in> {0,1,2,3,4,5,6,7,8,9}" by blast+
  with \<open>digit_char a = digit_char b\<close> show ?thesis
    by (auto simp: digit_char_def)
qed

lemma digit_char_not_minus: "d < 10 \<Longrightarrow> digit_char d \<noteq> CHR ''-''"
proof -
  assume "d < 10"
  then have "d \<in> {0,1,2,3,4,5,6,7,8,9}" by auto
  then show ?thesis by (auto simp: digit_char_def)
qed

lemma str_nat_nonempty [simp]: "str_nat n \<noteq> []" "[] \<noteq> str_nat n"
  by (subst str_nat.simps, simp)+

lemma str_nat_last: "last (str_nat n) = digit_char (n mod 10)"
  by (subst str_nat.simps) simp

lemma str_nat_butlast: "butlast (str_nat n) = (if n < 10 then [] else str_nat (n div 10))"
  by (subst str_nat.simps) simp

lemma str_nat_hd_not_minus: "hd (str_nat n) \<noteq> CHR ''-''"
proof (induction n rule: str_nat.induct)
  case (1 n)
  show ?case
  proof (cases "n < 10")
    case True
    then show ?thesis by (subst str_nat.simps) (simp add: digit_char_not_minus)
  next
    case False
    with 1 have "hd (str_nat (n div 10)) \<noteq> CHR ''-''" by simp
    with False show ?thesis
      by (subst str_nat.simps) simp
  qed
qed

lemma str_nat_inj: "str_nat m = str_nat n \<Longrightarrow> m = n"
proof (induction m arbitrary: n rule: str_nat.induct)
  case (1 m)
  from 1(2) have l: "digit_char (m mod 10) = digit_char (n mod 10)"
    by (metis str_nat_last)
  then have md: "m mod 10 = n mod 10" by (intro digit_char_inj) simp_all
  from 1(2) have b: "butlast (str_nat m) = butlast (str_nat n)" by simp
  show ?case
  proof (cases "m < 10")
    case True
    with b have "n < 10" by (auto simp: str_nat_butlast split: if_splits)
    with True md show ?thesis by simp
  next
    case False
    with b have n: "\<not> n < 10" and "str_nat (m div 10) = str_nat (n div 10)"
      by (auto simp: str_nat_butlast split: if_splits)
    with 1(1) False have "m div 10 = n div 10" by blast
    with md show ?thesis by (metis div_mult_mod_eq)
  qed
qed

lemma str_int_inj: "str_int i = str_int j \<Longrightarrow> i = j"
proof -
  assume e: "str_int i = str_int j"
  have h: "hd (CHR ''-'' # xs) = CHR ''-''" for xs by simp
  show ?thesis
  proof (cases "i < 0"; cases "j < 0")
    assume "i < 0" "j < 0"
    with e have "nat (- i) = nat (- j)" by (auto simp: str_int_def dest: str_nat_inj)
    with \<open>i < 0\<close> \<open>j < 0\<close> show ?thesis by simp
  next
    assume "i < 0" "\<not> j < 0"
    with e have "CHR ''-'' # str_nat (nat (- i)) = str_nat (nat j)" by (simp add: str_int_def)
    then have "hd (str_nat (nat j)) = CHR ''-''" by (metis h)
    then show ?thesis by (simp add: str_nat_hd_not_minus)
  next
    assume "\<not> i < 0" "j < 0"
    with e have "CHR ''-'' # str_nat (nat (- j)) = str_nat (nat i)" by (simp add: str_int_def)
    then have "hd (str_nat (nat i)) = CHR ''-''" by (metis h)
    then show ?thesis by (simp add: str_nat_hd_not_minus)
  next
    assume "\<not> i < 0" "\<not> j < 0"
    with e have "nat i = nat j" by (auto simp: str_int_def dest: str_nat_inj)
    with \<open>\<not> i < 0\<close> \<open>\<not> j < 0\<close> show ?thesis by simp
  qed
qed

lemma tiu_name_eq_iff [simp]: "(tiu_bin f i = tiu_bin f j) = (i = j)"
  by (auto simp: tiu_bin_def dest: str_int_inj)

lemma dma_name_eq_iff [simp]: "(dma_bin f i = dma_bin f j) = (i = j)"
  by (auto simp: dma_bin_def dest: str_int_inj)

lemma tiu_name_neq_dma_name [simp]:
  "tiu_bin f i \<noteq> dma_bin f j" "dma_bin f j \<noteq> tiu_bin f i"
proof -
  have "str_int i @ ''.tiu.bin'' \<noteq> str_int j @ ''.dma.bin''"
  proof
    assume "str_int i @ ''.tiu.bin'' = str_int j @ ''.dma.bin''"
    then have "''.tiu.bin'' = ''.dma.bin''"
      by (subst (asm) append_eq_append_conv) simp_all
    then show False by simp
  qed
  then show "tiu_bin f i \<noteq> dma_bin f j" "dma_bin f j \<noteq> tiu_bin f i"
    by (auto simp: tiu_bin_def dma_bin_def)
qed

lemma export_groups_last:
  "export_groups f i gs fs =
     (if gs = [] then fs
      else (fs(tiu_bin f i \<mapsto> tiu_cmd (last gs)))
              (dma_bin f i \<mapsto> dma_cmd (last gs)))"
proof (induction gs arbitrary: fs)
  case Nil
  then show ?case by simp
next
  case (Cons g gs)
  show ?case
  proof (cases "gs = []")
    case True
    then show ?thesis by (simp add: write_group_def)
  next
    case False
    then show ?thesis
      by (simp add: Cons.IH write_group_def fun_upd_twist)
  qed
qed

lemma export_subnets_fold:
  "\<forall>s \<in> set ss. SubNet_Id s \<noteq> [] \<Longrightarrow>
   export_subnets f ss fs =
     (fold (\<lambda>s. export_groups f (hd (SubNet_Id s)) (CmdGroup s)) ss fs, None)"
proof (induction ss arbitrary: fs)
  case Nil
  then show ?case by simp
next
  case (Cons s ss)
  then obtain i r where "SubNet_Id s = i # r" by (cases "SubNet_Id s") auto
  with Cons show ?case by simp
qed

lemma export_parameters_fold:
  "\<forall>s \<in> set (concat (map SubNet ps)). SubNet_Id s \<noteq> [] \<Longrightarrow>
   export_parameters f ps fs =
     (fold (\<lambda>s. export_groups f (hd (SubNet_Id s)) (CmdGroup s)) (concat (map SubNet ps)) fs,
      None)"
proof (induction ps arbitrary: fs)
  case Nil
  then show ?case by simp
next
  case (Cons p ps)
  then show ?case by (simp add: export_subnets_fold)
qed

lemma export_nets_fold:
  "\<forall>s \<in> set (concat (map SubNet (concat (map Parameter ns)))). SubNet_Id s \<noteq> [] \<Longrightarrow>
   export_nets f ns fs =
     (fold (\<lambda>s. export_groups f (hd (SubNet_Id s)) (CmdGroup s))
        (concat (map SubNet (concat (map Parameter ns)))) fs, None)"
proof (induction ns arbitrary: fs)
  case Nil
  then show ?case by simp
next
  case (Cons n ns)
  then show ?case by (simp add: export_parameters_fold)
qed

lemma fold_export_other:
  "\<forall>s \<in> set ss. n \<noteq> tiu_bin f (hd (SubNet_Id s))
                \<and> n \<noteq> dma_bin f (hd (SubNet_Id s)) \<Longrightarrow>
   fold (\<lambda>s. export_groups f (hd (SubNet_Id s)) (CmdGroup s)) ss fs n = fs n"
  by (induction ss arbitrary: fs) (auto simp: export_groups_last)

lemma fold_export_written:
  assumes "distinct (map (\<lambda>s. hd (SubNet_Id s)) ss)" and "s \<in> set ss" and "CmdGroup s \<noteq> []"
  shows "fold (\<lambda>s. export_groups f (hd (SubNet_Id s)) (CmdGroup s)) ss fs
           (tiu_bin f (hd (SubNet_Id s))) = Some (tiu_cmd (last (CmdGroup s)))
       \<and> fold (\<lambda>s. export_groups f (hd (SubNet_Id s)) (CmdGroup s)) ss fs
           (dma_bin f (hd (SubNet_Id s))) = Some (dma_cmd (last (CmdGroup s)))"
  using assms
proof (induction ss arbitrary: fs)
  case Nil
  then show ?case by simp
next
  case (Cons x xs)
  show ?case
  proof (cases "s \<in> set xs")
    case True
    with Cons show ?thesis by simp
  next
    case False
    with Cons.prems have sx: "s = x" by simp
    from Cons.prems have "\<forall>y \<in> set xs. hd (SubNet_Id y) \<noteq> hd (SubNet_Id x)"
      by (metis (no_types, lifting) distinct.simps(2) image_eqI list.simps(9) set_map)
    then have d: "\<And>y. y \<in> set xs \<Longrightarrow> hd (SubNet_Id x) \<noteq> hd (SubNet_Id y)" by metis
    have o: "fold (\<lambda>s. export_groups f (hd (SubNet_Id s)) (CmdGroup s)) xs fs' (tiu_bin f (hd (SubNet_Id x))) = fs' (tiu_bin f (hd (SubNet_Id x)))"
      "fold (\<lambda>s. export_groups f (hd (SubNet_Id s)) (CmdGroup s)) xs fs' (dma_bin f (hd (SubNet_Id x))) = fs' (dma_bin f (hd (SubNet_Id x)))" for fs'
      by (rule fold_export_other, simp add: d)+
    from Cons.prems(3) show ?thesis
      unfolding sx fold_Cons comp_apply o by (simp add: export_groups_last)
  qed
qed

lemma card_export_names:
  assumes "distinct (map (\<lambda>s. hd (SubNet_Id s)) ss)"
  shows "card (\<Union>s \<in> set ss. {tiu_bin f (hd (SubNet_Id s)),
                               dma_bin f (hd (SubNet_Id s))})
         = 2 * length ss"
  using assms
proof (induction ss)
  case Nil
  then show ?case by simp
next
  case (Cons x xs)
  let ?N = "\<Union>s \<in> set xs. {tiu_bin f (hd (SubNet_Id s)),
                               dma_bin f (hd (SubNet_Id s))}"
  from Cons.prems have d: "\<forall>y \<in> set xs. hd (SubNet_Id y) \<noteq> hd (SubNet_Id x)"
    by (metis (no_types, lifting) distinct.simps(2) image_eqI list.simps(9) set_map)
  have fin: "finite ?N" by simp
  have t: "tiu_bin f (hd (SubNet_Id x)) \<notin> ?N" using d by auto
  have m: "dma_bin f (hd (SubNet_Id x)) \<notin> ?N" using d by auto
  have "(\<Union>s \<in> set (x # xs). {tiu_bin f (hd (SubNet_Id s)),
                               dma_bin f (hd (SubNet_Id s))})
        = insert (tiu_bin f (hd (SubNet_Id x)))
            (insert (dma_bin f (hd (SubNet_Id x))) ?N)"
    by auto
  moreover have "card (insert (tiu_bin f (hd (SubNet_Id x)))
            (insert (dma_bin f (hd (SubNet_Id x))) ?N)) = 2 + card ?N"
    using fin t m by simp
  ultimately show ?case using Cons by simp
qed

lemma BModel2Bin_fold:
  "\<forall>s \<in> set (subnets bm). SubNet_Id s \<noteq> [] \<Longrightarrow>
   BModel2Bin f bm fs =
     (fold (\<lambda>s. export_groups f (hd (SubNet_Id s)) (CmdGroup s)) (subnets bm) fs, None)"
  unfolding BModel2Bin_def subnets_def by (rule export_nets_fold)

text \<open>
  C4, as the code has it. For a container in which every subnet has an id, at least one
  command group, and an id no other subnet of the container has, binary export ends
  without an exception and writes exactly two files per subnet, 2K for K subnets, named
  \<^verbatim>\<open><path>.<id>.tiu.bin\<close> and \<^verbatim>\<open><path>.<id>.dma.bin\<close>; each holds the bytes of that
  category of the last command group of its subnet (of its only command group, when there
  is one), and every other file is left as it was.
\<close>

theorem BModel2Bin_one_pair_per_subnet:
  assumes "\<forall>s \<in> set (subnets bm). SubNet_Id s \<noteq> [] \<and> CmdGroup s \<noteq> []"
    and "distinct (map (\<lambda>s. hd (SubNet_Id s)) (subnets bm))"
  shows "snd (BModel2Bin f bm fs) = None
     \<and> card (\<Union>s \<in> set (subnets bm).
               {tiu_bin f (hd (SubNet_Id s)), dma_bin f (hd (SubNet_Id s))})
         = 2 * length (subnets bm)
     \<and> dom (fst (BModel2Bin f bm fs)) =
         dom fs \<union> (\<Union>s \<in> set (subnets bm).
                      {tiu_bin f (hd (SubNet_Id s)), dma_bin f (hd (SubNet_Id s))})
     \<and> (\<forall>s \<in> set (subnets bm).
           fst (BModel2Bin f bm fs) (tiu_bin f (hd (SubNet_Id s)))
             = Some (tiu_cmd (last (CmdGroup s)))
         \<and> fst (BModel2Bin f bm fs) (dma_bin f (hd (SubNet_Id s)))
             = Some (dma_cmd (last (CmdGroup s))))
     \<and> (\<forall>n. n \<notin> (\<Union>s \<in> set (subnets bm).
                      {tiu_bin f (hd (SubNet_Id s)), dma_bin f (hd (SubNet_Id s))})
           \<longrightarrow> fst (BModel2Bin f bm fs) n = fs n)"
proof -
  let ?N = "\<Union>s \<in> set (subnets bm). {tiu_bin f (hd (SubNet_Id s)), dma_bin f (hd (SubNet_Id s))}"
  let ?r = "fold (\<lambda>s. export_groups f (hd (SubNet_Id s)) (CmdGroup s)) (subnets bm) fs"
  from assms(1) have run: "BModel2Bin f bm fs = (?r, None)"
    by (intro BModel2Bin_fold) simp
  have written: "?r (tiu_bin f (hd (SubNet_Id s))) = Some (tiu_cmd (last (CmdGroup s)))
               \<and> ?r (dma_bin f (hd (SubNet_Id s))) = Some (dma_cmd (last (CmdGroup s)))"
    if "s \<in> set (subnets bm)" for s
    using assms that by (intro fold_export_written) simp_all
  have other: "?r n = fs n" if "n \<notin> ?N" for n
    using that by (intro fold_export_other) simp
  have "dom ?r = dom fs \<union> ?N"
  proof (rule set_eqI)
    fix n
    show "(n \<in> dom ?r) = (n \<in> dom fs \<union> ?N)"
    proof (cases "n \<in> ?N")
      case True
      then obtain s where "s \<in> set (subnets bm)"
        and "n = tiu_bin f (hd (SubNet_Id s)) \<or> n = dma_bin f (hd (SubNet_Id s))" by auto
      with written [of s] have "n \<in> dom ?r" by auto
      with True show ?thesis by simp
    next
      case False
      with other [of n] show ?thesis by (simp add: dom_def)
    qed
  qed
  with run written other card_export_names [OF assms(2), of f] show ?thesis
    by simp
qed

theorem BModel2Bin_one_pair_per_subnet_witness:
  "snd (BModel2Bin ''a.bmodel''
     \<lparr>Chip = [''BM1684X''], Net = [\<lparr>Parameter = [\<lparr>SubNet =
        [\<lparr>SubNet_Id = [0], CmdGroup = [\<lparr>tiu_cmd = [1, 2], dma_cmd = [3]\<rparr>]\<rparr>,
         \<lparr>SubNet_Id = [1], CmdGroup = [\<lparr>tiu_cmd = [4], dma_cmd = [5, 6]\<rparr>]\<rparr>]\<rparr>]\<rparr>]\<rparr>
     Map.empty) = None
   \<and> dom (fst (BModel2Bin ''a.bmodel''
     \<lparr>Chip = [''BM1684X''], Net = [\<lparr>Parameter = [\<lparr>SubNet =
        [\<lparr>SubNet_Id = [0], CmdGroup = [\<lparr>tiu_cmd = [1, 2], dma_cmd = [3]\<rparr>]\<rparr>,
         \<lparr>SubNet_Id = [1], CmdGroup = [\<lparr>tiu_cmd = [4], dma_cmd = [5, 6]\<rparr>]\<rparr>]\<rparr>]\<rparr>]\<rparr>
     Map.empty))
     = {''a.bmodel.0.tiu.bin'', ''a.bmodel.0.dma.bin'', ''a.bmodel.1.tiu.bin'', ''a.bmodel.1.dma.bin''}
   \<and> fst (BModel2Bin ''a.bmodel''
     \<lparr>Chip = [''BM1684X''], Net = [\<lparr>Parameter = [\<lparr>SubNet =
        [\<lparr>SubNet_Id = [0], CmdGroup = [\<lparr>tiu_cmd = [1, 2], dma_cmd = [3]\<rparr>]\<rparr>,
         \<lparr>SubNet_Id = [1], CmdGroup = [\<lparr>tiu_cmd = [4], dma_cmd = [5, 6]\<rparr>]\<rparr>]\<rparr>]\<rparr>]\<rparr>
     Map.empty) ''a.bmodel.1.dma.bin'' = Some [5, 6]"
proof -
  let ?bm = "\<lparr>Chip = [''BM1684X''], Net = [\<lparr>Parameter = [\<lparr>SubNet =
        [\<lparr>SubNet_Id = [0], CmdGroup = [\<lparr>tiu_cmd = [1, 2], dma_cmd = [3]\<rparr>]\<rparr>,
         \<lparr>SubNet_Id = [1], CmdGroup = [\<lparr>tiu_cmd = [4], dma_cmd = [5, 6]\<rparr>]\<rparr>]\<rparr>]\<rparr>]\<rparr>"
  have sn: "subnets ?bm =
        [\<lparr>SubNet_Id = [0], CmdGroup = [\<lparr>tiu_cmd = [1, 2], dma_cmd = [3]\<rparr>]\<rparr>,
         \<lparr>SubNet_Id = [1], CmdGroup = [\<lparr>tiu_cmd = [4], dma_cmd = [5, 6]\<rparr>]\<rparr>]"
    by (simp add: subnets_def)
  have names: "tiu_bin ''a.bmodel'' 0 = ''a.bmodel.0.tiu.bin''"
    "dma_bin ''a.bmodel'' 0 = ''a.bmodel.0.dma.bin''"
    "tiu_bin ''a.bmodel'' 1 = ''a.bmodel.1.tiu.bin''"
    "dma_bin ''a.bmodel'' 1 = ''a.bmodel.1.dma.bin''"
    by (simp_all add: tiu_bin_def dma_bin_def str_int_def str_nat.simps digit_char_def)
  have h1: "\<forall>s \<in> set (subnets ?bm). SubNet_Id s \<noteq> [] \<and> CmdGroup s \<noteq> []"
    unfolding sn by simp
  have h2: "distinct (map (\<lambda>s. hd (SubNet_Id s)) (subnets ?bm))"
    unfolding sn by simp
  from BModel2Bin_one_pair_per_subnet [OF h1 h2, of "''a.bmodel''" Map.empty]
  show ?thesis
    unfolding sn by (auto simp: names)
qed

text \<open>
  C4 as stated fails. Files are written per command group and named by the subnet id
  alone: a subnet with no command group leaves no file (one subnet, no file), two
  subnets with the same id in different nets share one pair of names (two subnets, two
  files), and of two command groups of one subnet only the bytes of the second remain.
\<close>

theorem BModel2Bin_2K_files_counterexample:
  "card (dom (fst (BModel2Bin ''a.bmodel'' \<lparr>Chip = [''BM1684X''], Net = [\<lparr>Parameter = [\<lparr>SubNet =
        [\<lparr>SubNet_Id = [0], CmdGroup = []\<rparr>]\<rparr>]\<rparr>]\<rparr> Map.empty)))
     \<noteq> 2 * length (subnets \<lparr>Chip = [''BM1684X''], Net = [\<lparr>Parameter = [\<lparr>SubNet =
        [\<lparr>SubNet_Id = [0], CmdGroup = []\<rparr>]\<rparr>]\<rparr>]\<rparr>)
   \<and> length (subnets \<lparr>Chip = [''BM1684X''], Net = [\<lparr>Parameter = [\<lparr>SubNet =
        [\<lparr>SubNet_Id = [0], CmdGroup = []\<rparr>]\<rparr>]\<rparr>]\<rparr>) = 1
   \<and> BModel2Bin ''a.bmodel'' \<lparr>Chip = [''BM1684X''], Net = [\<lparr>Parameter = [\<lparr>SubNet =
        [\<lparr>SubNet_Id = [0], CmdGroup = []\<rparr>]\<rparr>]\<rparr>]\<rparr> Map.empty = (Map.empty, None)
   \<and> length (subnets \<lparr>Chip = [''BM1684X''], Net =
        [\<lparr>Parameter = [\<lparr>SubNet = [\<lparr>SubNet_Id = [0], CmdGroup = [\<lparr>tiu_cmd = [1], dma_cmd = [2]\<rparr>]\<rparr>]\<rparr>]\<rparr>,
         \<lparr>Parameter = [\<lparr>SubNet = [\<lparr>SubNet_Id = [0], CmdGroup = [\<lparr>tiu_cmd = [3], dma_cmd = [4]\<rparr>]\<rparr>]\<rparr>]\<rparr>]\<rparr>) = 2
   \<and> BModel2Bin ''a.bmodel'' \<lparr>Chip = [''BM1684X''], Net =
        [\<lparr>Parameter = [\<lparr>SubNet = [\<lparr>SubNet_Id = [0], CmdGroup = [\<lparr>tiu_cmd = [1], dma_cmd = [2]\<rparr>]\<rparr>]\<rparr>]\<rparr>,
         \<lparr>Parameter = [\<lparr>SubNet = [\<lparr>SubNet_Id = [0], CmdGroup = [\<lparr>tiu_cmd = [3], dma_cmd = [4]\<rparr>]\<rparr>]\<rparr>]\<rparr>]\<rparr>
        Map.empty
      = ([''a.bmodel.0.tiu.bin'' \<mapsto> [3], ''a.bmodel.0.dma.bin'' \<mapsto> [4]], None)
   \<and> BModel2Bin ''a.bmodel'' \<lparr>Chip = [''BM1684X''], Net =
        [\<lparr>Parameter = [\<lparr>SubNet = [\<lparr>SubNet_Id = [0], CmdGroup =
           [\<lparr>tiu_cmd = [1], dma_cmd = [2]\<rparr>, \<lparr>tiu_cmd = [3], dma_cmd = [4]\<rparr>]\<rparr>]\<rparr>]\<rparr>]\<rparr>
        Map.empty
      = ([''a.bmodel.0.tiu.bin'' \<mapsto> [3], ''a.bmodel.0.dma.bin'' \<mapsto> [4]], None)"
  by (simp add: subnets_def BModel2Bin_def write_group_def tiu_bin_def dma_bin_def
      str_int_def str_nat.simps digit_char_def)

section \<open>Properties of the cached decoder\<close>

lemma decoder_reads_append:
  "decoder_reads (xs @ ys) s =
     (case decoder_reads xs s of (ds, s') \<Rightarrow>
        (case decoder_reads ys s' of (es, s'') \<Rightarrow> (ds @ es, s'')))"
  by (induction xs arbitrary: s) (auto split: prod.splits)

lemma decoder_reads_Cons:
  "decoder_reads (c # cs) s =
     (fst (decoder c s) # fst (decoder_reads cs (snd (decoder c s))),
      snd (decoder_reads cs (snd (decoder c s))))"
  by (simp add: split_beta)

lemma length_decoder_reads: "length (fst (decoder_reads cs s)) = length cs"
  by (induction cs arbitrary: s) (simp_all add: decoder_reads_Cons del: decoder_reads.simps(2))

lemma keys_filter_neq: "map fst (filter (\<lambda>(k', v). k' \<noteq> k) xs) = filter (\<lambda>k'. k' \<noteq> k) (map fst xs)"
  by (induction xs) auto

lemma decoder_distinct_keys:
  assumes "distinct (map fst (decoder_cache s))"
  shows "distinct (map fst (decoder_cache (snd (decoder c s))))"
proof (cases "map_of (decoder_cache s) c")
  case None
  then have "c \<notin> set (map fst (decoder_cache s))" by (simp add: map_of_eq_None_iff)
  moreover have "distinct (map fst (tl (decoder_cache s)))"
    using assms by (simp add: map_tl distinct_tl)
  moreover have "set (map fst (tl (decoder_cache s))) \<subseteq> set (map fst (decoder_cache s))"
    by (cases "decoder_cache s") auto
  ultimately show ?thesis using assms None
    by (auto simp: decoder_def Let_def)
next
  case (Some d)
  with assms show ?thesis
    by (auto simp: decoder_def keys_filter_neq)
qed

lemma decoder_reads_distinct_keys:
  "distinct (map fst (decoder_cache s)) \<Longrightarrow>
   distinct (map fst (decoder_cache (snd (decoder_reads cs s))))"
proof (induction cs arbitrary: s)
  case Nil
  then show ?case by simp
next
  case (Cons c cs)
  from Cons.IH [OF decoder_distinct_keys [OF Cons.prems, of c]]
  show ?case by (simp add: decoder_reads_Cons del: decoder_reads.simps(2))
qed

lemma decoder_result_last:
  "\<exists>xs. decoder_cache (snd (decoder c s)) = xs @ [(c, fst (decoder c s))]"
  by (auto simp: decoder_def Let_def split: option.splits)

text \<open>An entry stays in the cache while fewer than \<open>maxsize\<close> other keys are read.\<close>

lemma decoder_retains:
  assumes dk: "distinct (map fst (decoder_cache s))"
    and c: "decoder_cache s = ys @ (c, d) # zs"
    and zs: "set (map fst zs) \<subseteq> S"
    and k: "k \<noteq> c" "k \<in> T" "S \<subseteq> T" "finite T" "card T < maxsize"
  shows "\<exists>ys' zs'. decoder_cache (snd (decoder k s)) = ys' @ (c, d) # zs'
           \<and> set (map fst zs') \<subseteq> insert k S"
proof (cases "map_of (decoder_cache s) k")
  case (Some v)
  then have "decoder_cache (snd (decoder k s)) =
          filter (\<lambda>(k', v). k' \<noteq> k) (decoder_cache s) @ [(k, v)]"
    by (simp add: decoder_def)
  then have "decoder_cache (snd (decoder k s)) =
          filter (\<lambda>(k', v). k' \<noteq> k) ys @ (c, d) # (filter (\<lambda>(k', v). k' \<noteq> k) zs @ [(k, v)])"
    using k(1) by (simp add: c)
  moreover have "set (map fst (filter (\<lambda>(k', v). k' \<noteq> k) zs @ [(k, v)])) \<subseteq> insert k S"
    using zs by auto
  ultimately show ?thesis by blast
next
  case None
  then have kn: "k \<notin> set (map fst (decoder_cache s))" by (simp add: map_of_eq_None_iff)
  show ?thesis
  proof (cases "length (decoder_cache s) \<ge> maxsize")
    case False
    with None have "decoder_cache (snd (decoder k s)) =
        decoder_cache s @ [(k, \<lparr>dec_id = next_id s, dec_context = k\<rparr>)]"
      by (simp add: decoder_def Let_def)
    then have "decoder_cache (snd (decoder k s)) =
        ys @ (c, d) # (zs @ [(k, \<lparr>dec_id = next_id s, dec_context = k\<rparr>)])"
      by (simp add: c)
    moreover have "set (map fst (zs @ [(k, \<lparr>dec_id = next_id s, dec_context = k\<rparr>)])) \<subseteq> insert k S"
      using zs by auto
    ultimately show ?thesis by blast
  next
    case True
    have "ys \<noteq> []"
    proof
      assume "ys = []"
      with True c have l: "maxsize \<le> Suc (length zs)" by simp
      from dk c have dz: "distinct (map fst zs)" by simp
      from kn c have "k \<notin> set (map fst zs)" by simp
      moreover from dz have "card (set (map fst zs)) = length zs"
        using distinct_card [of "map fst zs"] by simp
      ultimately have "card (insert k (set (map fst zs))) = Suc (length zs)"
        by (simp del: set_map)
      moreover have "insert k (set (map fst zs)) \<subseteq> T" using zs k by auto
      ultimately have "Suc (length zs) \<le> card T" using k(4) by (metis card_mono)
      with l k(5) show False by simp
    qed
    then obtain y ys0 where ys: "ys = y # ys0" by (cases ys) auto
    from None True have "decoder_cache (snd (decoder k s)) =
        tl (decoder_cache s) @ [(k, \<lparr>dec_id = next_id s, dec_context = k\<rparr>)]"
      by (simp add: decoder_def Let_def)
    then have "decoder_cache (snd (decoder k s)) =
        ys0 @ (c, d) # (zs @ [(k, \<lparr>dec_id = next_id s, dec_context = k\<rparr>)])"
      by (simp add: c ys)
    moreover have "set (map fst (zs @ [(k, \<lparr>dec_id = next_id s, dec_context = k\<rparr>)])) \<subseteq> insert k S"
      using zs by auto
    ultimately show ?thesis by blast
  qed
qed

lemma decoder_reads_retains:
  assumes "distinct (map fst (decoder_cache s))"
    and "decoder_cache s = ys @ (c, d) # zs"
    and "set (map fst zs) \<subseteq> S"
    and "c \<notin> set cs" "set cs \<subseteq> T" "S \<subseteq> T" "finite T" "card T < maxsize"
  shows "\<exists>ys' zs'. decoder_cache (snd (decoder_reads cs s)) = ys' @ (c, d) # zs'"
  using assms
proof (induction cs arbitrary: s ys zs S)
  case Nil
  then show ?case by auto
next
  case (Cons k cs)
  from Cons.prems have k: "k \<noteq> c" "k \<in> T" by auto
  from decoder_retains [OF Cons.prems(1,2,3) k Cons.prems(6,7,8)]
  obtain ys' zs' where a: "decoder_cache (snd (decoder k s)) = ys' @ (c, d) # zs'"
    and b: "set (map fst zs') \<subseteq> insert k S" by blast
  have "\<exists>ys'' zs''. decoder_cache (snd (decoder_reads cs (snd (decoder k s)))) = ys'' @ (c, d) # zs''"
  proof (rule Cons.IH [OF decoder_distinct_keys [OF Cons.prems(1)] a b])
    show "c \<notin> set cs" using Cons.prems by simp
    show "set cs \<subseteq> T" using Cons.prems by simp
    show "insert k S \<subseteq> T" using Cons.prems k by simp
    show "finite T" "card T < maxsize" using Cons.prems by simp_all
  qed
  then show ?case by (simp add: decoder_reads_Cons del: decoder_reads.simps(2))
qed

lemma decoder_hit:
  assumes "distinct (map fst (decoder_cache s))" and "decoder_cache s = ys @ (c, d) # zs"
  shows "fst (decoder c s) = d"
proof -
  from assms have "map_of (decoder_cache s) c = Some d"
    by (intro map_of_is_SomeI) simp_all
  then show ?thesis by (simp add: decoder_def)
qed

lemma decoder_reads_same_object:
  assumes "c \<notin> set cs" and "card (set cs) < maxsize"
  shows "fst (decoder_reads (pre @ c # cs @ [c]) (fresh_process :: 'cls process)) ! length pre
       = last (fst (decoder_reads (pre @ c # cs @ [c]) (fresh_process :: 'cls process)))"
proof -
  obtain ds s0 where pre: "decoder_reads pre (fresh_process :: 'cls process) = (ds, s0)"
    by (cases "decoder_reads pre (fresh_process :: 'cls process)")
  obtain d s1 where one: "decoder c s0 = (d, s1)" by (cases "decoder c s0")
  obtain es s2 where mid: "decoder_reads cs s1 = (es, s2)" by (cases "decoder_reads cs s1")
  obtain d' s3 where two: "decoder c s2 = (d', s3)" by (cases "decoder c s2")
  have l: "length ds = length pre"
    using length_decoder_reads [of pre "fresh_process :: 'cls process"] pre by simp
  have all: "fst (decoder_reads (pre @ c # cs @ [c]) (fresh_process :: 'cls process))
              = ds @ d # es @ [d']"
    by (simp add: decoder_reads_append pre one mid two)
  have "distinct (map fst (decoder_cache (fresh_process :: 'cls process)))"
    by (simp add: fresh_process_def)
  from decoder_reads_distinct_keys [OF this, of pre]
  have d0: "distinct (map fst (decoder_cache s0))"
    using pre by simp
  then have d1: "distinct (map fst (decoder_cache s1))"
    using decoder_distinct_keys [of s0 c] one by simp
  from decoder_result_last [of c s0] one
  obtain xs where c1: "decoder_cache s1 = xs @ (c, d) # []" by auto
  have "\<exists>ys' zs'. decoder_cache (snd (decoder_reads cs s1)) = ys' @ (c, d) # zs'"
    by (rule decoder_reads_retains [OF d1 c1, of "{}" cs "set cs"]) (use assms in simp_all)
  then obtain ys' zs' where c2: "decoder_cache s2 = ys' @ (c, d) # zs'" using mid by auto
  have d2: "distinct (map fst (decoder_cache s2))"
    using decoder_reads_distinct_keys [OF d1, of cs] mid by simp
  from decoder_hit [OF d2 c2] two have "d' = d" by simp
  with all l show ?thesis by (simp add: nth_append)
qed

lemma cache_inv_fresh: "cache_inv {} fresh_process"
  by (simp add: cache_inv_def fresh_process_def)

lemma decoder_cache_inv:
  assumes "cache_inv A s"
  shows "cache_inv (insert (fst (decoder c s)) A) (snd (decoder c s))
       \<and> dec_context (fst (decoder c s)) = c"
proof (cases "map_of (decoder_cache s) c")
  case None
  have "set (tl (decoder_cache s)) \<subseteq> set (decoder_cache s)"
    by (cases "decoder_cache s") auto
  with assms None show ?thesis
    by (fastforce simp: decoder_def Let_def cache_inv_def)
next
  case (Some d)
  then have "(c, d) \<in> set (decoder_cache s)" by (rule map_of_SomeD)
  with assms Some show ?thesis
    by (fastforce simp: decoder_def cache_inv_def)
qed

lemma decoder_reads_cache_inv:
  "cache_inv A s \<Longrightarrow>
   cache_inv (A \<union> set (fst (decoder_reads cs s))) (snd (decoder_reads cs s))
   \<and> map dec_context (fst (decoder_reads cs s)) = cs"
proof (induction cs arbitrary: A s)
  case Nil
  then show ?case by simp
next
  case (Cons c cs)
  from decoder_cache_inv [OF Cons.prems, of c]
  have a: "cache_inv (insert (fst (decoder c s)) A) (snd (decoder c s))"
    and b: "dec_context (fst (decoder c s)) = c" by simp_all
  from Cons.IH [OF a] b show ?case
    by (simp add: decoder_reads_Cons del: decoder_reads.simps(2))
qed

lemma decoder_reads_not_shared:
  assumes "i < length xs" and "j < length xs" and "xs ! i \<noteq> xs ! j"
  shows "dec_id (fst (decoder_reads xs (fresh_process :: 'cls process)) ! i)
       \<noteq> dec_id (fst (decoder_reads xs (fresh_process :: 'cls process)) ! j)"
proof
  let ?ds = "fst (decoder_reads xs (fresh_process :: 'cls process))"
  assume e: "dec_id (?ds ! i) = dec_id (?ds ! j)"
  have "cache_inv {} (fresh_process :: 'cls process)" by (rule cache_inv_fresh)
  from decoder_reads_cache_inv [OF this, of xs]
  have inv: "cache_inv (set ?ds) (snd (decoder_reads xs (fresh_process :: 'cls process)))"
    and ctx: "map dec_context ?ds = xs" by simp_all
  from ctx have l: "length ?ds = length xs" by (metis length_map)
  with assms have "?ds ! i \<in> set ?ds" "?ds ! j \<in> set ?ds" by simp_all
  with inv e have "?ds ! i = ?ds ! j" by (simp add: cache_inv_def)
  then have "map dec_context ?ds ! i = map dec_context ?ds ! j"
    using assms l by simp
  with ctx assms show False by simp
qed


text \<open>
  C5, as the code has it. In a process that starts with an empty cache and reads
  \<^verbatim>\<open>.decoder\<close> on any instances in any order: two reads on the same instance return
  the same object when the reads in between are on fewer than 128 (\<open>maxsize\<close>) different
  other instances, in particular when there is none; and two reads on different instances
  never return the same object.
\<close>

theorem decoder_cached_per_instance:
  "(c \<notin> set cs \<and> card (set cs) < maxsize \<longrightarrow>
      fst (decoder_reads (pre @ c # cs @ [c]) (fresh_process :: 'cls process)) ! length pre
        = last (fst (decoder_reads (pre @ c # cs @ [c]) (fresh_process :: 'cls process))))
   \<and> (i < length xs \<and> j < length xs \<and> xs ! i \<noteq> xs ! j \<longrightarrow>
        dec_id (fst (decoder_reads xs (fresh_process :: 'cls process)) ! i)
          \<noteq> dec_id (fst (decoder_reads xs (fresh_process :: 'cls process)) ! j))"
  using decoder_reads_same_object [of c cs pre] decoder_reads_not_shared [of i xs j]
  by blast

theorem decoder_cached_per_instance_witness:
  "fst (decoder_reads [5, 7, 5, 9, 5, 7] (fresh_process :: unit process)) ! 1
     = last (fst (decoder_reads [5, 7, 5, 9, 5, 7] (fresh_process :: unit process)))
   \<and> dec_id (fst (decoder_reads [7, 5, 7] (fresh_process :: unit process)) ! 0)
     \<noteq> dec_id (fst (decoder_reads [7, 5, 7] (fresh_process :: unit process)) ! 1)"
proof -
  have "card (set [5, 9, 5 :: nat]) \<le> length [5, 9, 5 :: nat]" by (rule card_length)
  then have c: "card (set [5, 9, 5 :: nat]) < maxsize" by (simp add: maxsize_def)
  have n: "(7 :: nat) \<notin> set [5, 9, 5]" by simp
  have x: "[7, 5, 7 :: nat] ! 0 \<noteq> [7, 5, 7] ! 1" by simp
  from decoder_cached_per_instance [of 7 "[5, 9, 5]" "[5]" 0 "[7, 5, 7]" 1, where ?'cls = unit]
    c n x
  show ?thesis by simp
qed

text \<open>Reading \<open>n\<close> new instances one after the other leaves the last \<open>maxsize\<close> of them.\<close>

lemma decoder_reads_upt:
  "decoder_reads [0..<n] (fresh_process :: 'cls process) =
     (map (\<lambda>k. \<lparr>dec_id = k, dec_context = k\<rparr>) [0..<n],
      (fresh_process :: 'cls process)
        \<lparr>next_id := n,
         decoder_cache := map (\<lambda>k. (k, \<lparr>dec_id = k, dec_context = k\<rparr>)) [n - maxsize..<n]\<rparr>)"
proof (induction n)
  case 0
  then show ?case by (simp add: fresh_process_def)
next
  case (Suc n)
  let ?s = "(fresh_process :: 'cls process)
        \<lparr>next_id := n,
         decoder_cache := map (\<lambda>k. (k, \<lparr>dec_id = k, dec_context = k\<rparr>)) [n - maxsize..<n]\<rparr>"
  have miss: "map_of (decoder_cache ?s) n = None"
    by (simp add: map_of_eq_None_iff image_image)
  have tl_eq: "tl (map (\<lambda>k. (k, \<lparr>dec_id = k, dec_context = k\<rparr>)) [n - maxsize..<n])
             = map (\<lambda>k. (k, \<lparr>dec_id = k, dec_context = k\<rparr>)) [Suc (n - maxsize)..<n]"
    by (simp add: map_tl [symmetric] tl_upt)
  have step: "decoder n ?s =
      (\<lparr>dec_id = n, dec_context = n\<rparr>,
       (fresh_process :: 'cls process)
        \<lparr>next_id := Suc n,
         decoder_cache := map (\<lambda>k. (k, \<lparr>dec_id = k, dec_context = k\<rparr>)) [Suc n - maxsize..<Suc n]\<rparr>)"
  proof (cases "maxsize \<le> n")
    case True
    then have "Suc n - maxsize = Suc (n - maxsize)" by simp
    moreover from True have "Suc (n - maxsize) \<le> n" by (simp add: maxsize_def)
    ultimately show ?thesis using True miss
      unfolding decoder_def by (simp add: Let_def tl_eq)
  next
    case False
    with miss show ?thesis
      unfolding decoder_def by (simp add: Let_def)
  qed
  have "decoder_reads [0..<Suc n] (fresh_process :: 'cls process)
      = decoder_reads ([0..<n] @ [n]) (fresh_process :: 'cls process)" by simp
  also have "\<dots> = (map (\<lambda>k. \<lparr>dec_id = k, dec_context = k\<rparr>) [0..<Suc n],
      (fresh_process :: 'cls process)
        \<lparr>next_id := Suc n,
         decoder_cache := map (\<lambda>k. (k, \<lparr>dec_id = k, dec_context = k\<rparr>)) [Suc n - maxsize..<Suc n]\<rparr>)"
    unfolding decoder_reads_append Suc.IH by (simp add: step)
  finally show ?case .
qed

text \<open>
  C5 as stated fails: the cache is one per process and holds 128 entries. After a read on
  instance 0 and reads on 128 other instances, the entry of instance 0 has been dropped,
  and the next read on instance 0 builds a new decoder: the first and the last object
  returned differ.
\<close>

theorem decoder_evicted_counterexample:
  "fst (decoder_reads ([0..<129] @ [0]) (fresh_process :: unit process)) ! 0
     = \<lparr>dec_id = 0, dec_context = 0\<rparr>
   \<and> last (fst (decoder_reads ([0..<129] @ [0]) (fresh_process :: unit process)))
     = \<lparr>dec_id = 129, dec_context = 0\<rparr>"
proof -
  let ?s = "(fresh_process :: unit process)
        \<lparr>next_id := 129,
         decoder_cache := map (\<lambda>k. (k, \<lparr>dec_id = k, dec_context = k\<rparr>)) [129 - maxsize..<129]\<rparr>"
  have "map_of (decoder_cache ?s) 0 = None"
    by (simp add: map_of_eq_None_iff image_image maxsize_def)
  then have "fst (decoder 0 ?s) = \<lparr>dec_id = 129, dec_context = 0\<rparr>"
    by (simp add: decoder_def Let_def)
  moreover have "map (\<lambda>k. \<lparr>dec_id = k, dec_context = k\<rparr>) [0..<129] ! 0 = \<lparr>dec_id = 0, dec_context = 0\<rparr>"
    by (subst nth_map) simp_all
  ultimately show ?thesis
    unfolding decoder_reads_append decoder_reads_upt
    by (simp add: nth_append split_beta del: upt_Suc)
qed

section \<open>Properties of get\_runner\<close>

lemma decoder_class_attrs: "class_attrs (snd (decoder c s)) = class_attrs s"
  by (simp add: decoder_def Let_def split: option.splits)

lemma context_decoder_class_attrs: "class_attrs (snd (context_decoder bm s)) = class_attrs s"
proof -
  have "class_attrs (snd (decoder (next_id s) (s\<lparr>next_id := next_id s + 1\<rparr>))) = class_attrs s"
    by (simp add: decoder_class_attrs)
  then show ?thesis
    by (simp add: context_decoder_def split: list.splits sum.splits prod.splits)
       (metis snd_conv)
qed

lemma setattr_fields:
  "next_id (setattr c n v s) = next_id s"
  "decoder_cache (setattr c n v s) = decoder_cache s"
  "proc_files (setattr c n v s) = proc_files s"
  "class_attrs (setattr c n v s) c' = (if c' = c then (class_attrs s c)(n \<mapsto> v) else class_attrs s c')"
  by (simp_all add: setattr_def)

lemma fold_setattr:
  "next_id (fold (\<lambda>op s. setattr op n v s) ops s) = next_id s
 \<and> decoder_cache (fold (\<lambda>op s. setattr op n v s) ops s) = decoder_cache s
 \<and> proc_files (fold (\<lambda>op s. setattr op n v s) ops s) = proc_files s
 \<and> class_attrs (fold (\<lambda>op s. setattr op n v s) ops s) c =
      (if c \<in> set ops then (class_attrs s c)(n \<mapsto> v) else class_attrs s c)"
  by (induction ops arbitrary: s) (auto simp: setattr_fields)

lemma bind_compute_fields:
  "next_id (bind_compute items v s) = next_id s
 \<and> decoder_cache (bind_compute items v s) = decoder_cache s
 \<and> proc_files (bind_compute items v s) = proc_files s
 \<and> class_attrs (bind_compute items v s) c =
      (if c \<in> set (concat (map snd items)) then (class_attrs s c)(''compute'' \<mapsto> v)
       else class_attrs s c)"
  unfolding bind_compute_def
proof (induction items arbitrary: s)
  case Nil
  then show ?case by simp
next
  case (Cons it items)
  obtain k ops where it: "it = (k, ops)" by (cases it)
  show ?case
    unfolding it by (simp add: Cons.IH fold_setattr)
qed

lemma BModel2MLIR_class_attrs: "class_attrs (snd (BModel2MLIR dis bm s)) = class_attrs s"
  using context_decoder_class_attrs [of bm s]
  by (auto simp: BModel2MLIR_def split: prod.splits sum.splits)

lemma BModel2Reg_class_attrs: "class_attrs (snd (BModel2Reg dis bm s)) = class_attrs s"
  using context_decoder_class_attrs [of bm s]
  by (auto simp: BModel2Reg_def split: prod.splits sum.splits)

lemma bind_resource_fields:
  "next_id (bind_resource tabs self cm s) = next_id s + 1"
  "decoder_cache (bind_resource tabs self cm s) = decoder_cache s"
  "proc_files (bind_resource tabs self cm s) = proc_files s"
  by (simp_all add: bind_resource_def Let_def setattr_fields bind_compute_fields)

lemma bind_resource_compute:
  "class_attrs (bind_resource tabs self cm s) cls ''compute'' =
     (if cls \<in> dma_classes tabs self then Some (Compute_dma (cm_id cm))
      else if cls \<in> tiu_classes tabs self then Some (Compute_tiu (cm_id cm))
      else class_attrs s cls ''compute'')"
  by (simp add: bind_resource_def Let_def setattr_fields bind_compute_fields
      tiu_classes_def dma_classes_def)

lemma bind_resource_data:
  "class_attrs (bind_resource tabs self cm s) cls ''data'' =
     (if cls = MemRef_class tabs (opparam self)
      then Some (Data_property \<lparr>mem_id = next_id s, mem_module = opparam self,
                                mem_cmodel = cm_id cm\<rparr>)
      else class_attrs s cls ''data'')"
  by (simp add: bind_resource_def Let_def setattr_fields bind_compute_fields)

lemma bind_resource_other:
  "n \<noteq> ''compute'' \<Longrightarrow> n \<noteq> ''data'' \<Longrightarrow>
   class_attrs (bind_resource tabs self cm s) cls n = class_attrs s cls n"
  by (simp add: bind_resource_def Let_def setattr_fields bind_compute_fields)

lemma get_runner_eq:
  "get_runner tabs self m s =
     (Inr \<lparr>cm_id = next_id s, cm_device = device self, cm_memory_size = m\<rparr>,
      bind_resource tabs self \<lparr>cm_id = next_id s, cm_device = device self, cm_memory_size = m\<rparr>
        (s\<lparr>next_id := next_id s + 1\<rparr>))"
  by (cases "device self") (simp_all add: get_runner_def)

lemma get_runner_fields:
  "next_id (snd (get_runner tabs self m s)) = next_id s + 2"
  "decoder_cache (snd (get_runner tabs self m s)) = decoder_cache s"
  "proc_files (snd (get_runner tabs self m s)) = proc_files s"
  by (simp_all add: get_runner_eq bind_resource_fields)

lemma get_runner_compute:
  "class_attrs (snd (get_runner tabs self m s)) cls ''compute'' =
     (if cls \<in> dma_classes tabs self then Some (Compute_dma (next_id s))
      else if cls \<in> tiu_classes tabs self then Some (Compute_tiu (next_id s))
      else class_attrs s cls ''compute'')"
  by (simp add: get_runner_eq bind_resource_compute)

lemma get_runner_data:
  "class_attrs (snd (get_runner tabs self m s)) cls ''data'' =
     (if cls = MemRef_class tabs (opparam self)
      then Some (Data_property \<lparr>mem_id = next_id s + 1, mem_module = opparam self,
                                mem_cmodel = next_id s\<rparr>)
      else class_attrs s cls ''data'')"
  by (simp add: get_runner_eq bind_resource_data)

text \<open>
  C8, as the code has it. Reading \<^verbatim>\<open>.decoder\<close> and the module and register conversions
  leave every class attribute as it was (construction, \<^verbatim>\<open>tensor2memref\<close> and binary
  export do not take part in the process state at all: they are functions of their
  arguments and of the files). \<^verbatim>\<open>get_runner\<close> returns a new simulator and sets
  \<^verbatim>\<open>compute\<close> on every class of the two dictionaries of the caller's opcode module
  (the data-movement binding where a class is in both) and \<^verbatim>\<open>data\<close> on the \<^verbatim>\<open>MemRef\<close>
  class of the caller's operand module. A second call, on a context \<open>c2\<close>, rebinds
  exactly the classes of the modules of \<open>c2\<close> to the second simulator, whatever they
  were bound to, and leaves \<^verbatim>\<open>compute\<close> and \<^verbatim>\<open>data\<close> of every other class, and every
  other attribute, as the first call left them. When both contexts have the same modules,
  every binding of the first call is therefore replaced.
\<close>

theorem get_runner_rebinds_own_classes:
  "class_attrs (snd (decoder c s)) = class_attrs s
 \<and> class_attrs (snd (BModel2MLIR dis bm s)) = class_attrs s
 \<and> class_attrs (snd (BModel2Reg dis bm s)) = class_attrs s
 \<and> fst (get_runner tabs c1 m1 s) =
      Inr \<lparr>cm_id = next_id s, cm_device = device c1, cm_memory_size = m1\<rparr>
 \<and> fst (get_runner tabs c2 m2 (snd (get_runner tabs c1 m1 s))) =
      Inr \<lparr>cm_id = next_id s + 2, cm_device = device c2, cm_memory_size = m2\<rparr>
 \<and> (cls \<in> dma_classes tabs c1 \<longrightarrow>
      class_attrs (snd (get_runner tabs c1 m1 s)) cls ''compute''
        = Some (Compute_dma (next_id s)))
 \<and> (cls \<in> tiu_classes tabs c1 \<and> cls \<notin> dma_classes tabs c1 \<longrightarrow>
      class_attrs (snd (get_runner tabs c1 m1 s)) cls ''compute''
        = Some (Compute_tiu (next_id s)))
 \<and> class_attrs (snd (get_runner tabs c1 m1 s)) (MemRef_class tabs (opparam c1)) ''data''
      = Some (Data_property \<lparr>mem_id = next_id s + 1, mem_module = opparam c1,
                                mem_cmodel = next_id s\<rparr>)
 \<and> (cls \<in> dma_classes tabs c2 \<longrightarrow>
      class_attrs (snd (get_runner tabs c2 m2 (snd (get_runner tabs c1 m1 s)))) cls ''compute''
        = Some (Compute_dma (next_id s + 2)))
 \<and> (cls \<in> tiu_classes tabs c2 \<and> cls \<notin> dma_classes tabs c2 \<longrightarrow>
      class_attrs (snd (get_runner tabs c2 m2 (snd (get_runner tabs c1 m1 s)))) cls ''compute''
        = Some (Compute_tiu (next_id s + 2)))
 \<and> (cls \<notin> tiu_classes tabs c2 \<and> cls \<notin> dma_classes tabs c2 \<longrightarrow>
      class_attrs (snd (get_runner tabs c2 m2 (snd (get_runner tabs c1 m1 s)))) cls ''compute''
        = class_attrs (snd (get_runner tabs c1 m1 s)) cls ''compute'')
 \<and> class_attrs (snd (get_runner tabs c2 m2 (snd (get_runner tabs c1 m1 s))))
        (MemRef_class tabs (opparam c2)) ''data''
      = Some (Data_property \<lparr>mem_id = next_id s + 3, mem_module = opparam c2,
                                mem_cmodel = next_id s + 2\<rparr>)
 \<and> (cls \<noteq> MemRef_class tabs (opparam c2) \<longrightarrow>
      class_attrs (snd (get_runner tabs c2 m2 (snd (get_runner tabs c1 m1 s)))) cls ''data''
        = class_attrs (snd (get_runner tabs c1 m1 s)) cls ''data'')
 \<and> (n \<noteq> ''compute'' \<and> n \<noteq> ''data'' \<longrightarrow>
      class_attrs (snd (get_runner tabs c2 m2 (snd (get_runner tabs c1 m1 s)))) cls n
        = class_attrs s cls n)"
proof -
  have o: "n \<noteq> ''compute'' \<and> n \<noteq> ''data'' \<longrightarrow>
      class_attrs (snd (get_runner tabs c2 m2 (snd (get_runner tabs c1 m1 s)))) cls n
        = class_attrs s cls n"
    by (simp add: get_runner_eq bind_resource_other)
  have f: "fst (get_runner tabs c2 m2 (snd (get_runner tabs c1 m1 s))) =
      Inr \<lparr>cm_id = next_id s + 2, cm_device = device c2, cm_memory_size = m2\<rparr>"
    by (subst get_runner_eq) (simp add: get_runner_fields)
  show ?thesis
    using o f
    by (simp add: decoder_class_attrs BModel2MLIR_class_attrs BModel2Reg_class_attrs
        get_runner_compute get_runner_data get_runner_fields)
       (simp add: get_runner_eq)
qed

theorem get_runner_rebinds_own_classes_witness:
  "class_attrs (snd (get_runner
     \<lparr>tiu_cls = (\<lambda>m. if m = opdef_1684x then [(''CONV'', [''opdef_1684x.conv_op''])]
                    else [(''CONV'', [''opdef_1684.conv_op''])]),
      dma_cls = (\<lambda>m. if m = opdef_1684x then [(''DMA_tensor'', [''opdef_1684x.dma_tensor''])]
                    else [(''DMA_tensor'', [''opdef_1684.dma_tensor''])]),
      MemRef_class = (\<lambda>m. if m = opparam_1684x then ''opparam_1684x.MemRef''
                         else ''opparam_1684.MemRef'')\<rparr>
     \<lparr>opdef = opdef_1684x, opparam = opparam_1684x, device = BM1684X\<rparr> 32 fresh_process)) ''opdef_1684x.conv_op'' ''compute'' = Some (Compute_tiu 0)
 \<and> class_attrs (snd (get_runner
     \<lparr>tiu_cls = (\<lambda>m. if m = opdef_1684x then [(''CONV'', [''opdef_1684x.conv_op''])]
                    else [(''CONV'', [''opdef_1684.conv_op''])]),
      dma_cls = (\<lambda>m. if m = opdef_1684x then [(''DMA_tensor'', [''opdef_1684x.dma_tensor''])]
                    else [(''DMA_tensor'', [''opdef_1684.dma_tensor''])]),
      MemRef_class = (\<lambda>m. if m = opparam_1684x then ''opparam_1684x.MemRef''
                         else ''opparam_1684.MemRef'')\<rparr>
     \<lparr>opdef = opdef_1684x, opparam = opparam_1684x, device = BM1684X\<rparr> 64 (snd (get_runner
     \<lparr>tiu_cls = (\<lambda>m. if m = opdef_1684x then [(''CONV'', [''opdef_1684x.conv_op''])]
                    else [(''CONV'', [''opdef_1684.conv_op''])]),
      dma_cls = (\<lambda>m. if m = opdef_1684x then [(''DMA_tensor'', [''opdef_1684x.dma_tensor''])]
                    else [(''DMA_tensor'', [''opdef_1684.dma_tensor''])]),
      MemRef_class = (\<lambda>m. if m = opparam_1684x then ''opparam_1684x.MemRef''
                         else ''opparam_1684.MemRef'')\<rparr>
     \<lparr>opdef = opdef_1684x, opparam = opparam_1684x, device = BM1684X\<rparr> 32 fresh_process)))) ''opdef_1684x.conv_op'' ''compute'' = Some (Compute_tiu 2)
 \<and> class_attrs (snd (get_runner
     \<lparr>tiu_cls = (\<lambda>m. if m = opdef_1684x then [(''CONV'', [''opdef_1684x.conv_op''])]
                    else [(''CONV'', [''opdef_1684.conv_op''])]),
      dma_cls = (\<lambda>m. if m = opdef_1684x then [(''DMA_tensor'', [''opdef_1684x.dma_tensor''])]
                    else [(''DMA_tensor'', [''opdef_1684.dma_tensor''])]),
      MemRef_class = (\<lambda>m. if m = opparam_1684x then ''opparam_1684x.MemRef''
                         else ''opparam_1684.MemRef'')\<rparr>
     \<lparr>opdef = opdef_1684x, opparam = opparam_1684x, device = BM1684X\<rparr> 64 (snd (get_runner
     \<lparr>tiu_cls = (\<lambda>m. if m = opdef_1684x then [(''CONV'', [''opdef_1684x.conv_op''])]
                    else [(''CONV'', [''opdef_1684.conv_op''])]),
      dma_cls = (\<lambda>m. if m = opdef_1684x then [(''DMA_tensor'', [''opdef_1684x.dma_tensor''])]
                    else [(''DMA_tensor'', [''opdef_1684.dma_tensor''])]),
      MemRef_class = (\<lambda>m. if m = opparam_1684x then ''opparam_1684x.MemRef''
                         else ''opparam_1684.MemRef'')\<rparr>
     \<lparr>opdef = opdef_1684x, opparam = opparam_1684x, device = BM1684X\<rparr> 32 fresh_process)))) ''opparam_1684x.MemRef'' ''data''
     = Some (Data_property \<lparr>mem_id = 3, mem_module = opparam_1684x, mem_cmodel = 2\<rparr>)"
proof -
  let ?t = "\<lparr>tiu_cls = (\<lambda>m. if m = opdef_1684x then [(''CONV'', [''opdef_1684x.conv_op''])]
                    else [(''CONV'', [''opdef_1684.conv_op''])]),
      dma_cls = (\<lambda>m. if m = opdef_1684x then [(''DMA_tensor'', [''opdef_1684x.dma_tensor''])]
                    else [(''DMA_tensor'', [''opdef_1684.dma_tensor''])]),
      MemRef_class = (\<lambda>m. if m = opparam_1684x then ''opparam_1684x.MemRef''
                         else ''opparam_1684.MemRef'')\<rparr>"
  let ?x = "\<lparr>opdef = opdef_1684x, opparam = opparam_1684x, device = BM1684X\<rparr>"
  have t: "''opdef_1684x.conv_op'' \<in> tiu_classes ?t ?x"
    "''opdef_1684x.conv_op'' \<notin> dma_classes ?t ?x"
    "MemRef_class ?t (opparam ?x) = ''opparam_1684x.MemRef''"
    by (simp_all add: tiu_classes_def dma_classes_def)
  have n: "next_id (fresh_process :: string process) = 0" by (simp add: fresh_process_def)
  note T = get_runner_rebinds_own_classes
    [of 0 "fresh_process :: string process" undefined undefined ?t ?x 32 ?x 64
        "''opdef_1684x.conv_op''" "''compute''"]
  let ?f = "fresh_process :: string process"
  have a: "class_attrs (snd (get_runner ?t ?x 32 ?f)) ''opdef_1684x.conv_op'' ''compute''
      = Some (Compute_tiu (next_id ?f))"
    using T t(1,2) by blast
  have b: "class_attrs (snd (get_runner ?t ?x 64 (snd (get_runner ?t ?x 32 ?f))))
      ''opdef_1684x.conv_op'' ''compute'' = Some (Compute_tiu (next_id ?f + 2))"
    using T t(1,2) by blast
  have c: "class_attrs (snd (get_runner ?t ?x 64 (snd (get_runner ?t ?x 32 ?f))))
      (MemRef_class ?t (opparam ?x)) ''data''
      = Some (Data_property \<lparr>mem_id = next_id ?f + 3, mem_module = opparam ?x,
                                mem_cmodel = next_id ?f + 2\<rparr>)"
    using T by blast
  from a b c show ?thesis
    unfolding t(3) n by simp
qed

text \<open>
  C8 as stated fails for a second call on the other device. With class tables in which
  the two opcode modules and the two operand modules define their own classes, a runner
  for BM1684X followed by a runner for BM1684 leaves the classes of the first device bound
  to the first simulator (identity 0) and its memory.
\<close>

theorem get_runner_other_device_counterexample:
  "fst (get_runner
     \<lparr>tiu_cls = (\<lambda>m. if m = opdef_1684x then [(''CONV'', [''opdef_1684x.conv_op''])]
                    else [(''CONV'', [''opdef_1684.conv_op''])]),
      dma_cls = (\<lambda>m. if m = opdef_1684x then [(''DMA_tensor'', [''opdef_1684x.dma_tensor''])]
                    else [(''DMA_tensor'', [''opdef_1684.dma_tensor''])]),
      MemRef_class = (\<lambda>m. if m = opparam_1684x then ''opparam_1684x.MemRef''
                         else ''opparam_1684.MemRef'')\<rparr>
     \<lparr>opdef = opdef_1684x, opparam = opparam_1684x, device = BM1684X\<rparr> 32 fresh_process) = Inr \<lparr>cm_id = 0, cm_device = BM1684X, cm_memory_size = 32\<rparr>
 \<and> fst (get_runner
     \<lparr>tiu_cls = (\<lambda>m. if m = opdef_1684x then [(''CONV'', [''opdef_1684x.conv_op''])]
                    else [(''CONV'', [''opdef_1684.conv_op''])]),
      dma_cls = (\<lambda>m. if m = opdef_1684x then [(''DMA_tensor'', [''opdef_1684x.dma_tensor''])]
                    else [(''DMA_tensor'', [''opdef_1684.dma_tensor''])]),
      MemRef_class = (\<lambda>m. if m = opparam_1684x then ''opparam_1684x.MemRef''
                         else ''opparam_1684.MemRef'')\<rparr>
     \<lparr>opdef = opdef_1684, opparam = opparam_1684, device = BM1684\<rparr> 64 (snd (get_runner
     \<lparr>tiu_cls = (\<lambda>m. if m = opdef_1684x then [(''CONV'', [''opdef_1684x.conv_op''])]
                    else [(''CONV'', [''opdef_1684.conv_op''])]),
      dma_cls = (\<lambda>m. if m = opdef_1684x then [(''DMA_tensor'', [''opdef_1684x.dma_tensor''])]
                    else [(''DMA_tensor'', [''opdef_1684.dma_tensor''])]),
      MemRef_class = (\<lambda>m. if m = opparam_1684x then ''opparam_1684x.MemRef''
                         else ''opparam_1684.MemRef'')\<rparr>
     \<lparr>opdef = opdef_1684x, opparam = opparam_1684x, device = BM1684X\<rparr> 32 fresh_process))) = Inr \<lparr>cm_id = 2, cm_device = BM1684, cm_memory_size = 64\<rparr>
 \<and> class_attrs (snd (get_runner
     \<lparr>tiu_cls = (\<lambda>m. if m = opdef_1684x then [(''CONV'', [''opdef_1684x.conv_op''])]
                    else [(''CONV'', [''opdef_1684.conv_op''])]),
      dma_cls = (\<lambda>m. if m = opdef_1684x then [(''DMA_tensor'', [''opdef_1684x.dma_tensor''])]
                    else [(''DMA_tensor'', [''opdef_1684.dma_tensor''])]),
      MemRef_class = (\<lambda>m. if m = opparam_1684x then ''opparam_1684x.MemRef''
                         else ''opparam_1684.MemRef'')\<rparr>
     \<lparr>opdef = opdef_1684, opparam = opparam_1684, device = BM1684\<rparr> 64 (snd (get_runner
     \<lparr>tiu_cls = (\<lambda>m. if m = opdef_1684x then [(''CONV'', [''opdef_1684x.conv_op''])]
                    else [(''CONV'', [''opdef_1684.conv_op''])]),
      dma_cls = (\<lambda>m. if m = opdef_1684x then [(''DMA_tensor'', [''opdef_1684x.dma_tensor''])]
                    else [(''DMA_tensor'', [''opdef_1684.dma_tensor''])]),
      MemRef_class = (\<lambda>m. if m = opparam_1684x then ''opparam_1684x.MemRef''
                         else ''opparam_1684.MemRef'')\<rparr>
     \<lparr>opdef = opdef_1684x, opparam = opparam_1684x, device = BM1684X\<rparr> 32 fresh_process)))) ''opdef_1684x.conv_op'' ''compute'' = Some (Compute_tiu 0)
 \<and> class_attrs (snd (get_runner
     \<lparr>tiu_cls = (\<lambda>m. if m = opdef_1684x then [(''CONV'', [''opdef_1684x.conv_op''])]
                    else [(''CONV'', [''opdef_1684.conv_op''])]),
      dma_cls = (\<lambda>m. if m = opdef_1684x then [(''DMA_tensor'', [''opdef_1684x.dma_tensor''])]
                    else [(''DMA_tensor'', [''opdef_1684.dma_tensor''])]),
      MemRef_class = (\<lambda>m. if m = opparam_1684x then ''opparam_1684x.MemRef''
                         else ''opparam_1684.MemRef'')\<rparr>
     \<lparr>opdef = opdef_1684, opparam = opparam_1684, device = BM1684\<rparr> 64 (snd (get_runner
     \<lparr>tiu_cls = (\<lambda>m. if m = opdef_1684x then [(''CONV'', [''opdef_1684x.conv_op''])]
                    else [(''CONV'', [''opdef_1684.conv_op''])]),
      dma_cls = (\<lambda>m. if m = opdef_1684x then [(''DMA_tensor'', [''opdef_1684x.dma_tensor''])]
                    else [(''DMA_tensor'', [''opdef_1684.dma_tensor''])]),
      MemRef_class = (\<lambda>m. if m = opparam_1684x then ''opparam_1684x.MemRef''
                         else ''opparam_1684.MemRef'')\<rparr>
     \<lparr>opdef = opdef_1684x, opparam = opparam_1684x, device = BM1684X\<rparr> 32 fresh_process)))) ''opdef_1684x.dma_tensor'' ''compute'' = Some (Compute_dma 0)
 \<and> class_attrs (snd (get_runner
     \<lparr>tiu_cls = (\<lambda>m. if m = opdef_1684x then [(''CONV'', [''opdef_1684x.conv_op''])]
                    else [(''CONV'', [''opdef_1684.conv_op''])]),
      dma_cls = (\<lambda>m. if m = opdef_1684x then [(''DMA_tensor'', [''opdef_1684x.dma_tensor''])]
                    else [(''DMA_tensor'', [''opdef_1684.dma_tensor''])]),
      MemRef_class = (\<lambda>m. if m = opparam_1684x then ''opparam_1684x.MemRef''
                         else ''opparam_1684.MemRef'')\<rparr>
     \<lparr>opdef = opdef_1684, opparam = opparam_1684, device = BM1684\<rparr> 64 (snd (get_runner
     \<lparr>tiu_cls = (\<lambda>m. if m = opdef_1684x then [(''CONV'', [''opdef_1684x.conv_op''])]
                    else [(''CONV'', [''opdef_1684.conv_op''])]),
      dma_cls = (\<lambda>m. if m = opdef_1684x then [(''DMA_tensor'', [''opdef_1684x.dma_tensor''])]
                    else [(''DMA_tensor'', [''opdef_1684.dma_tensor''])]),
      MemRef_class = (\<lambda>m. if m = opparam_1684x then ''opparam_1684x.MemRef''
                         else ''opparam_1684.MemRef'')\<rparr>
     \<lparr>opdef = opdef_1684x, opparam = opparam_1684x, device = BM1684X\<rparr> 32 fresh_process)))) ''opparam_1684x.MemRef'' ''data''
     = Some (Data_property \<lparr>mem_id = 1, mem_module = opparam_1684x, mem_cmodel = 0\<rparr>)"
proof -
  let ?t = "\<lparr>tiu_cls = (\<lambda>m. if m = opdef_1684x then [(''CONV'', [''opdef_1684x.conv_op''])]
                    else [(''CONV'', [''opdef_1684.conv_op''])]),
      dma_cls = (\<lambda>m. if m = opdef_1684x then [(''DMA_tensor'', [''opdef_1684x.dma_tensor''])]
                    else [(''DMA_tensor'', [''opdef_1684.dma_tensor''])]),
      MemRef_class = (\<lambda>m. if m = opparam_1684x then ''opparam_1684x.MemRef''
                         else ''opparam_1684.MemRef'')\<rparr>"
  let ?x = "\<lparr>opdef = opdef_1684x, opparam = opparam_1684x, device = BM1684X\<rparr>"
  let ?y = "\<lparr>opdef = opdef_1684, opparam = opparam_1684, device = BM1684\<rparr>"
  let ?s1 = "snd (get_runner ?t ?x 32 (fresh_process :: string process))"
  have n: "next_id (fresh_process :: string process) = 0" by (simp add: fresh_process_def)
  have f1: "fst (get_runner ?t ?x 32 (fresh_process :: string process))
      = Inr \<lparr>cm_id = 0, cm_device = BM1684X, cm_memory_size = 32\<rparr>"
    by (subst get_runner_eq) (simp add: n)
  have f2: "fst (get_runner ?t ?y 64 ?s1)
      = Inr \<lparr>cm_id = 2, cm_device = BM1684, cm_memory_size = 64\<rparr>"
    by (subst get_runner_eq) (simp add: get_runner_fields n)
  have c: "class_attrs (snd (get_runner ?t ?y 64 ?s1)) ''opdef_1684x.conv_op'' ''compute''
      = Some (Compute_tiu 0)"
    "class_attrs (snd (get_runner ?t ?y 64 ?s1)) ''opdef_1684x.dma_tensor'' ''compute''
      = Some (Compute_dma 0)"
    by (simp_all add: get_runner_compute tiu_classes_def dma_classes_def n)
  have d: "class_attrs (snd (get_runner ?t ?y 64 ?s1)) ''opparam_1684x.MemRef'' ''data''
     = Some (Data_property \<lparr>mem_id = 1, mem_module = opparam_1684x, mem_cmodel = 0\<rparr>)"
    by (simp add: get_runner_data n)
  from f1 f2 c d show ?thesis by blast
qed

section \<open>Properties of the diff engine\<close>

subsection \<open>A sequence matched against itself\<close>

lemma positions_notin [simp]: "x \<notin> set xs \<Longrightarrow> positions i xs x = []"
  by (induction xs arbitrary: i) auto

lemma chain_loop_lookup:
  "chain_loop i xs m x =
     (if x \<in> set xs
      then Some ((case m x of None \<Rightarrow> [] | Some l \<Rightarrow> l) @ positions i xs x)
      else m x)"
  by (induction xs arbitrary: i m) auto

lemma positions_set:
  "set (positions i xs x) = {j. i \<le> j \<and> j < i + int (length xs) \<and> xs ! nat (j - i) = x}"
proof (induction xs arbitrary: i)
  case Nil
  then show ?case by auto
next
  case (Cons e xs)
  have "{j. i \<le> j \<and> j < i + int (length (e # xs)) \<and> (e # xs) ! nat (j - i) = x}
      = (if e = x then {i} else {})
          \<union> {j. i + 1 \<le> j \<and> j < i + 1 + int (length xs) \<and> xs ! nat (j - (i + 1)) = x}"
  proof (rule set_eqI)
    fix j
    show "(j \<in> {j. i \<le> j \<and> j < i + int (length (e # xs)) \<and> (e # xs) ! nat (j - i) = x})
        = (j \<in> (if e = x then {i} else {})
          \<union> {j. i + 1 \<le> j \<and> j < i + 1 + int (length xs) \<and> xs ! nat (j - (i + 1)) = x})"
    proof (cases "j = i")
      case True
      then show ?thesis by auto
    next
      case False
      have "i < j \<Longrightarrow> nat (j - i) = Suc (nat (j - (i + 1)))" by simp
      then show ?thesis using False by auto
    qed
  qed
  then show ?case by (simp add: Cons.IH)
qed

lemma positions_sorted: "sorted_wrt (<) (positions i xs x)"
proof (induction xs arbitrary: i)
  case Nil
  then show ?case by simp
next
  case (Cons e xs)
  have "\<forall>j \<in> set (positions (i + 1) xs x). i < j" by (auto simp: positions_set)
  with Cons show ?case by (simp add: sorted_wrt_append)
qed

lemma chain_b_lookup:
  "chain_b b x = (if indexed b x then Some (positions 0 b x) else None)"
  by (auto simp: indexed_def chain_b_def Let_def chain_loop_lookup split: option.splits if_splits)

lemma flm_inner_diag:
  assumes J1: "\<forall>j v. j2len j = Some v \<longrightarrow>
                 0 \<le> j \<and> 1 \<le> v \<and> v \<le> int (run a (nat j + 1)) \<and> v \<le> int (run a n)"
    and J2: "n \<ge> 1 \<and> indexed a (a ! (n - 1)) \<longrightarrow> j2len (int n - 1) = Some (int (run a n))"
    and js: "\<forall>j \<in> set js. 0 \<le> j \<and> j < la \<and> indexed a (a ! nat j) \<and> indexed a (a ! n)"
    and sorted: "sorted_wrt (<) js"
    and B1: "besti = bestj"
    and B2: "\<forall>m \<le> n. int (run a m) \<le> bestsize"
    and B3: "int n \<notin> set js \<longrightarrow> indexed a (a ! n) \<longrightarrow> int (run a (n + 1)) \<le> bestsize"
    and N1: "\<forall>j v. newj2len j = Some v \<longrightarrow>
                 0 \<le> j \<and> 1 \<le> v \<and> v \<le> int (run a (nat j + 1)) \<and> v \<le> int (run a (n + 1))"
    and N2: "int n \<notin> set js \<longrightarrow> indexed a (a ! n) \<longrightarrow>
               newj2len (int n) = Some (int (run a (n + 1)))"
    and res: "flm_inner 0 la (int n) j2len js (newj2len, besti, bestj, bestsize) = (m', bi, bj, bs)"
  shows "(\<forall>j v. m' j = Some v \<longrightarrow>
            0 \<le> j \<and> 1 \<le> v \<and> v \<le> int (run a (nat j + 1)) \<and> v \<le> int (run a (n + 1)))
       \<and> (indexed a (a ! n) \<longrightarrow> m' (int n) = Some (int (run a (n + 1))))
       \<and> bi = bj \<and> (\<forall>m \<le> n + 1. int (run a m) \<le> bs)"
  using js sorted B1 B2 B3 N1 N2 res
proof (induction js arbitrary: newj2len besti bestj bestsize)
  case Nil
  have "int (run a m) \<le> bs" if "m \<le> n + 1" for m
  proof (cases "m \<le> n")
    case True
    with Nil show ?thesis by simp
  next
    case False
    with that have m: "m = Suc n" by simp
    from Nil have "0 \<le> bs" by force
    with Nil show ?thesis unfolding m by auto
  qed
  with Nil show ?case by simp
next
  case (Cons j js)
  from Cons.prems(1) have j: "0 \<le> j" "j < la" and NPj: "indexed a (a ! nat j)"
    and NPn: "indexed a (a ! n)" by simp_all
  define k where "k = (case j2len (j - 1) of None \<Rightarrow> 0 | Some v \<Rightarrow> v) + 1"
  have k1: "1 \<le> k \<and> k \<le> int (run a (nat j + 1)) \<and> k \<le> int (run a (n + 1))"
  proof (cases "j2len (j - 1)")
    case None
    then show ?thesis by (simp add: k_def NPj NPn)
  next
    case (Some v)
    with J1 have v: "0 \<le> j - 1" "1 \<le> v" "v \<le> int (run a (nat (j - 1) + 1))" "v \<le> int (run a n)"
      by blast+
    from \<open>0 \<le> j - 1\<close> have e: "nat (j - 1) + 1 = nat j" by simp
    have "v \<le> int (run a (nat j))" using v(3) unfolding e .
    with v show ?thesis using Some by (simp add: k_def NPj NPn)
  qed
  have kn: "k = int (run a (n + 1))" if "j = int n"
  proof (cases "n \<ge> 1 \<and> indexed a (a ! (n - 1))")
    case True
    with J2 that show ?thesis by (simp add: k_def NPn)
  next
    case False
    have none: "j2len (j - 1) = None"
    proof (cases "j2len (j - 1)")
      case (Some v)
      with J1 have v: "0 \<le> j - 1" "1 \<le> v" "v \<le> int (run a n)" by blast+
      with that have "n \<ge> 1" by simp
      with False have "\<not> indexed a (a ! (n - 1))" by simp
      moreover from \<open>n \<ge> 1\<close> have "n = Suc (n - 1)" by simp
      ultimately have "run a n = 0" by (metis run.simps(2))
      with v show ?thesis by simp
    qed simp
    have "run a n = 0"
    proof (cases n)
      case 0
      then show ?thesis by simp
    next
      case (Suc n')
      with False show ?thesis by simp
    qed
    with none show ?thesis by (simp add: k_def NPn)
  qed
  have kb: "k \<le> bestsize" if "j \<noteq> int n"
  proof (cases "j < int n")
    case True
    with j have "nat j + 1 \<le> n" by simp
    with Cons.prems(4) have "int (run a (nat j + 1)) \<le> bestsize" by blast
    with k1 show ?thesis by simp
  next
    case False
    with that have "int n < j" by simp
    moreover from Cons.prems(2) have "\<forall>x \<in> set js. j < x" by simp
    ultimately have "int n \<notin> set (j # js)" by auto
    with Cons.prems(5) NPn have "int (run a (n + 1)) \<le> bestsize" by blast
    with k1 show ?thesis by simp
  qed
  have rest_sorted: "sorted_wrt (<) js" using Cons.prems(2) by simp
  have rest_js: "\<forall>j \<in> set js. 0 \<le> j \<and> j < la \<and> indexed a (a ! nat j) \<and> indexed a (a ! n)"
    using Cons.prems(1) by simp
  have N1': "\<forall>j' v. (newj2len(j \<mapsto> k)) j' = Some v \<longrightarrow>
                 0 \<le> j' \<and> 1 \<le> v \<and> v \<le> int (run a (nat j' + 1)) \<and> v \<le> int (run a (n + 1))"
    using Cons.prems(6) k1 j by auto
  have N2': "int n \<notin> set js \<longrightarrow> indexed a (a ! n) \<longrightarrow>
               (newj2len(j \<mapsto> k)) (int n) = Some (int (run a (n + 1)))"
  proof (cases "j = int n")
    case True
    with kn show ?thesis by simp
  next
    case False
    with Cons.prems(7) show ?thesis by auto
  qed
  show ?case
  proof (cases "k > bestsize")
    case True
    with kb have jn: "j = int n" by force
    from True j Cons.prems(8)
    have r: "flm_inner 0 la (int n) j2len js (newj2len(j \<mapsto> k), int n - k + 1, j - k + 1, k)
               = (m', bi, bj, bs)"
      by (simp add: k_def Let_def)
    show ?thesis
    proof (rule Cons.IH [OF rest_js rest_sorted _ _ _ N1' N2' r])
      show "int n - k + 1 = j - k + 1" using jn by simp
      show "\<forall>m \<le> n. int (run a m) \<le> k" using Cons.prems(4) True by force
      show "int n \<notin> set js \<longrightarrow> indexed a (a ! n) \<longrightarrow> int (run a (n + 1)) \<le> k"
        using kn [OF jn] by simp
    qed
  next
    case False
    with j Cons.prems(8)
    have r: "flm_inner 0 la (int n) j2len js (newj2len(j \<mapsto> k), besti, bestj, bestsize)
               = (m', bi, bj, bs)"
      by (simp add: k_def Let_def)
    show ?thesis
    proof (rule Cons.IH [OF rest_js rest_sorted Cons.prems(3,4) _ N1' N2' r])
      show "int n \<notin> set js \<longrightarrow> indexed a (a ! n) \<longrightarrow> int (run a (n + 1)) \<le> bestsize"
      proof (cases "j = int n")
        case True
        from kn [OF True] False have "int (run a (n + 1)) \<le> bestsize" by (simp only: not_less)
        then show ?thesis by blast
      next
        case jn: False
        with Cons.prems(5) show ?thesis by auto
      qed
    qed
  qed
qed

lemma flm_row_diag:
  assumes inv: "diag_inv a n st" and n: "n < length a"
  shows "diag_inv a (Suc n) (flm_row a (chain_b a) 0 (int (length a)) (int n) st)"
proof -
  obtain j2len besti bestj bestsize where st: "st = (j2len, besti, bestj, bestsize)"
    by (metis prod_cases4)
  define js where "js = (case chain_b a (a ! n) of None \<Rightarrow> [] | Some js \<Rightarrow> js)"
  have js_eq: "js = (if indexed a (a ! n) then positions 0 a (a ! n) else [])"
    by (simp add: js_def chain_b_lookup)
  obtain m' bi bj bs where
    res: "flm_inner 0 (int (length a)) (int n) j2len js (Map.empty, besti, bestj, bestsize)
            = (m', bi, bj, bs)"
    by (metis prod_cases4)
  from inv have J1: "\<forall>j v. j2len j = Some v \<longrightarrow>
           0 \<le> j \<and> 1 \<le> v \<and> v \<le> int (run a (nat j + 1)) \<and> v \<le> int (run a n)"
    and J2: "n \<ge> 1 \<and> indexed a (a ! (n - 1)) \<longrightarrow> j2len (int n - 1) = Some (int (run a n))"
    and B1: "besti = bestj"
    and B2: "\<forall>m \<le> n. int (run a m) \<le> bestsize"
    by (simp_all add: diag_inv_def st)
  have mem: "int n \<in> set js" if "indexed a (a ! n)"
    using that n by (simp add: js_eq positions_set)
  have js: "\<forall>j \<in> set js. 0 \<le> j \<and> j < int (length a) \<and> indexed a (a ! nat j) \<and> indexed a (a ! n)"
    by (auto simp: js_eq positions_set split: if_splits)
  have sorted: "sorted_wrt (<) js"
    by (simp add: js_eq positions_sorted)
  have B3: "int n \<notin> set js \<longrightarrow> indexed a (a ! n) \<longrightarrow> int (run a (n + 1)) \<le> bestsize"
    using mem by blast
  have N1: "\<forall>j v. (Map.empty :: int \<rightharpoonup> int) j = Some v \<longrightarrow>
                 0 \<le> j \<and> 1 \<le> v \<and> v \<le> int (run a (nat j + 1)) \<and> v \<le> int (run a (n + 1))"
    by simp
  have N2: "int n \<notin> set js \<longrightarrow> indexed a (a ! n) \<longrightarrow>
               (Map.empty :: int \<rightharpoonup> int) (int n) = Some (int (run a (n + 1)))"
    using mem by blast
  from flm_inner_diag [OF J1 J2 js sorted B1 B2 B3 N1 N2 res]
  have "diag_inv a (Suc n) (m', bi, bj, bs)"
    by (simp add: diag_inv_def)
  then show ?thesis
    by (simp add: flm_row_def st js_def [symmetric] res)
qed

lemma flm_fold_diag:
  "n \<le> length a \<Longrightarrow>
   diag_inv a n (fold (flm_row a (chain_b a) 0 (int (length a))) [0..int n - 1]
                   (Map.empty, 0, 0, 0))"
proof (induction n)
  case 0
  then show ?case by (simp add: diag_inv_def)
next
  case (Suc n)
  have "[0..int (Suc n) - 1] = [0..int n - 1] @ [int n]"
    using upto_rec2 [of 0 "int n"] by simp
  with Suc flm_row_diag [of a n] show ?case by simp
qed

lemma extend_left_diag:
  "0 \<le> p \<Longrightarrow> extend_left a a (\<lambda>x. False) False 0 0 (p, p, k) = (0, 0, k + p)"
proof (induction "nat p" arbitrary: p k)
  case 0
  then show ?case by (subst extend_left.simps) simp
next
  case (Suc n)
  then have "0 < p" "n = nat (p - 1)" "0 \<le> p - 1" by simp_all
  with Suc.hyps(1) [of "p - 1" "k + 1"] show ?case
    by (subst extend_left.simps) simp
qed

lemma extend_right_diag:
  "0 \<le> k \<Longrightarrow> k \<le> int (length a) \<Longrightarrow>
   extend_right a a (\<lambda>x. False) False (int (length a)) (int (length a)) (0, 0, k)
     = (0, 0, int (length a))"
proof (induction "nat (int (length a) - k)" arbitrary: k)
  case 0
  then have "k = int (length a)" by simp
  then show ?case by (subst extend_right.simps) simp
next
  case (Suc n)
  then have "k < int (length a)" "n = nat (int (length a) - (k + 1))" by simp_all
  with Suc.hyps(1) [of "k + 1"] Suc.prems show ?case
    by (subst extend_right.simps) simp
qed

lemma find_longest_match_same:
  "find_longest_match a a (chain_b a) 0 (int (length a)) 0 (int (length a))
     = (0, 0, int (length a))"
proof -
  let ?la = "int (length a)"
  obtain m bi bj bs where
    f: "fold (flm_row a (chain_b a) 0 ?la) [0..?la - 1] (Map.empty, 0, 0, 0) = (m, bi, bj, bs)"
    by (metis prod_cases4)
  from flm_fold_diag [of "length a" a] f have eq: "bi = bj"
    by (simp add: diag_inv_def)
  have "(0 :: int) \<le> ?la - 1 + 1" by simp
  from flm_fold_bounds [OF this f] have b: "0 \<le> bi" "bi + bs \<le> ?la" "0 \<le> bs" by simp_all
  have e1: "extend_left a a (\<lambda>x. False) False 0 0 (bi, bj, bs) = (0, 0, bs + bi)"
    unfolding eq [symmetric] using b(1) by (rule extend_left_diag)
  have e2: "extend_right a a (\<lambda>x. False) False ?la ?la (0, 0, bs + bi) = (0, 0, ?la)"
    using b by (intro extend_right_diag) simp_all
  have e3: "extend_left a a (\<lambda>x. False) True 0 0 (0, 0, ?la) = (0, 0, ?la)"
    by (subst extend_left.simps) simp
  have e4: "extend_right a a (\<lambda>x. False) True ?la ?la (0, 0, ?la) = (0, 0, ?la)"
    by (subst extend_right.simps) simp
  show ?thesis
    by (simp add: find_longest_match_def f e1 e2 e3 e4)
qed

lemma matching_loop_same:
  "matching_loop a a (chain_b a) [(0, int (length a), 0, int (length a))] []
     = (if a = [] then [] else [(0, 0, int (length a))])"
proof -
  have "match_step a a (chain_b a) (0, int (length a), 0, int (length a))
      = (if a = [] then ([], []) else ([], [(0, 0, int (length a))]))"
    by (simp add: match_step_def find_longest_match_same)
  then show ?thesis by simp
qed

lemma get_matching_blocks_same:
  "get_matching_blocks a a =
     (if a = [] then [(0, 0, 0)] else [(0, 0, int (length a)), (int (length a), int (length a), 0)])"
  by (simp add: get_matching_blocks_def Let_def matching_loop_same del: matching_loop.simps)

lemma get_opcodes_same:
  "get_opcodes a a = (if a = [] then [] else [(Equal, 0, int (length a), 0, int (length a))])"
  by (simp add: get_opcodes_def get_matching_blocks_same)

lemma group_loop_single_equal:
  "0 \<le> n \<Longrightarrow> group_loop n (fix_last n (fix_first n [(Equal, 0, l, 0, l)])) [] = []"
  by (simp add: fix_first_def fix_last_def)

lemma get_grouped_opcodes_same: "0 \<le> n \<Longrightarrow> get_grouped_opcodes a a n = []"
  by (simp add: get_grouped_opcodes_def get_opcodes_same Let_def group_loop_single_equal
      del: group_loop.simps)

lemma unified_diff_same:
  "0 \<le> n \<Longrightarrow>
   unified_diff view a a fromfile tofile n format =
     (if format = ''raw'' \<or> format = ''mlir'' \<or> format = ''bits'' then Inr []
      else Inl (KeyError format))"
  by (simp add: unified_diff_def fmt_op_def get_grouped_opcodes_same)

subsection \<open>The comparison of two containers\<close>


lemma compare_loop_runs:
  assumes "fmt_op view format = Inr fmt"
  shows "compare_loop view f0 f1 n format ps is_same printed =
     ((is_same \<and> (\<forall>p \<in> set ps.
          unified_diff view (snd (fst p)) (snd (snd p)) f0 f1 n format = Inr []),
       printed @ map (\<lambda>p. func_block (fst (fst p))
                       (map (\<lambda>x. [CHR 0x0A] @ x)
                          (projr (unified_diff view (snd (fst p)) (snd (snd p)) f0 f1 n format))))
                  (filter (\<lambda>p. unified_diff view (snd (fst p)) (snd (snd p)) f0 f1 n format
                               \<noteq> Inr []) ps)),
      None)"
proof (induction ps arbitrary: is_same printed)
  case Nil
  then show ?case by simp
next
  case (Cons p ps)
  obtain idx cmd_a idx_b cmd_b where p: "p = ((idx, cmd_a), (idx_b, cmd_b))"
    by (metis prod.collapse)
  obtain lines where u: "unified_diff view cmd_a cmd_b f0 f1 n format = Inr lines"
    using assms by (simp add: unified_diff_def)
  have e: "(@) [CHR 0x0A] = (#) (CHR 0x0A)" by (rule ext) simp
  show ?case
    unfolding p by (cases "lines = []") (simp_all add: u Cons.IH Let_def e)
qed

lemma main_compare_same:
  assumes "\<forall>p \<in> set (zip ta tb).
             unified_diff view (snd (fst p)) (snd (snd p)) f0 f1 n format = Inr []"
  shows "main_compare view f0 f1 format n ta tb = ([same_message f0 f1], Exit 0)"
proof (cases "fmt_op view format")
  case (Inl e)
  have "zip ta tb = []"
  proof (cases "zip ta tb")
    case (Cons p ps)
    with assms have "unified_diff view (snd (fst p)) (snd (snd p)) f0 f1 n format = Inr []"
      by simp
    with Inl show ?thesis by (simp add: unified_diff_def)
  qed simp
  then show ?thesis unfolding main_compare_def by (simp only: compare_loop.simps) simp
next
  case (Inr fmt)
  have "filter (\<lambda>p. unified_diff view (snd (fst p)) (snd (snd p)) f0 f1 n format \<noteq> Inr [])
          (zip ta tb) = []"
    using assms by (simp add: filter_empty_conv)
  with assms show ?thesis
    by (simp add: main_compare_def compare_loop_runs [OF Inr])
qed



lemma main_compare_take:
  "main_compare view f0 f1 format n
     (take (min (length ta) (length tb)) ta) (take (min (length ta) (length tb)) tb)
   = main_compare view f0 f1 format n ta tb"
proof -
  have "zip (take (min (length ta) (length tb)) ta) (take (min (length ta) (length tb)) tb)
      = take (min (length ta) (length tb)) (zip ta tb)"
    by (simp add: take_zip)
  also have "\<dots> = zip ta tb" by simp
  finally show ?thesis by (simp add: main_compare_def)
qed

text \<open>
  C1, as the code has it. For a context count \<open>n\<close> that is not negative, a sequence
  compared with itself gives no group of opcodes, and \<^verbatim>\<open>unified_diff\<close> yields no line
  at all, neither header nor range nor text, for each of the three formats it knows (for
  any other format it raises KeyError before it yields a line). So a container compared
  with itself prints that the two are the same and exits with status 0.
\<close>

theorem unified_diff_identical:
  "0 \<le> n \<Longrightarrow>
     get_grouped_opcodes a a n = []
   \<and> unified_diff view a a fromfile tofile n format =
       (if format = ''raw'' \<or> format = ''mlir'' \<or> format = ''bits'' then Inr []
        else Inl (KeyError format))
   \<and> (format = ''raw'' \<or> format = ''mlir'' \<or> format = ''bits'' \<longrightarrow>
        main_compare view fromfile tofile format n t t
          = ([same_message fromfile tofile], Exit 0))"
proof -
  assume n: "0 \<le> n"
  have "main_compare view fromfile tofile format n t t = ([same_message fromfile tofile], Exit 0)"
    if "format = ''raw'' \<or> format = ''mlir'' \<or> format = ''bits''"
  proof (rule main_compare_same)
    show "\<forall>p \<in> set (zip t t).
            unified_diff view (snd (fst p)) (snd (snd p)) fromfile tofile n format = Inr []"
      using that n by (auto simp: zip_same unified_diff_same)
  qed
  with n show ?thesis
    by (simp add: get_grouped_opcodes_same unified_diff_same)
qed

theorem unified_diff_identical_witness:
  "get_grouped_opcodes [1, 2, 3 :: nat] [1, 2, 3] 3 = []
   \<and> unified_diff \<lparr>str_attr = (\<lambda>n. ''attr''), str_op = str_nat, str_cmd = (\<lambda>n. [])\<rparr>
       [1, 2, 3 :: nat] [1, 2, 3] ''a.bmodel'' ''b.bmodel'' 3 ''mlir'' = Inr []
   \<and> main_compare \<lparr>str_attr = (\<lambda>n. ''attr''), str_op = str_nat, str_cmd = (\<lambda>n. [])\<rparr>
       ''a.bmodel'' ''b.bmodel'' ''mlir'' 3 [([0], [1, 2, 3 :: nat])] [([0], [1, 2, 3])]
       = ([[CHR 0x22] @ ''a.bmodel'' @ [CHR 0x22] @ '' and '' @ [CHR 0x22] @ ''b.bmodel''
            @ [CHR 0x22] @ '' are the same!''], Exit 0)"
  using unified_diff_identical
    [of 3 "[1, 2, 3 :: nat]" "\<lparr>str_attr = (\<lambda>n. ''attr''), str_op = str_nat, str_cmd = (\<lambda>n. [])\<rparr>"
        "''a.bmodel''" "''b.bmodel''" "''mlir''" "[([0], [1, 2, 3 :: nat])]"]
  by (simp add: same_message_def)

text \<open>
  C1 as stated fails for a negative context count, which \<^verbatim>\<open>--N\<close> accepts. With
  \<open>n = -1\<close> the only opcode of two equal sequences becomes a group with an empty, reversed
  range, and \<^verbatim>\<open>unified_diff\<close> yields the two file headers, a range header and the
  closing empty line; the comparison of a container with itself then prints a block and
  exits with status 1.
\<close>

theorem unified_diff_negative_context_counterexample:
  "unified_diff \<lparr>str_attr = (\<lambda>n. ''attr''), str_op = str_nat, str_cmd = (\<lambda>n. [])\<rparr>
       [7 :: nat] [7] ''a.bmodel'' ''b.bmodel'' (- 1) ''mlir''
     = Inr [''--- a.bmodel'', ''+++ b.bmodel'', ''@@ -3,-1 +3,-1 @@'' @ [CHR 0x0A], []]
   \<and> main_compare \<lparr>str_attr = (\<lambda>n. ''attr''), str_op = str_nat, str_cmd = (\<lambda>n. [])\<rparr>
       ''a.bmodel'' ''b.bmodel'' ''mlir'' (- 1) [([0], [7 :: nat])] [([0], [7])]
     = ([''func.func @graph0() {'' @ [CHR 0x0A] @ ''--- a.bmodel'' @ [CHR 0x0A]
           @ ''+++ b.bmodel'' @ [CHR 0x0A] @ ''@@ -3,-1 +3,-1 @@'' @ [CHR 0x0A, CHR 0x0A]
           @ ''}''], Exit 1)"
  by code_simp




text \<open>
  C9. The comparison zips the two sequences of subgraphs, so it reads only the first
  \<open>min (len a) (len b)\<close> entries of each: cutting both sequences to that length changes
  neither what is printed nor how the process ends.
\<close>

theorem main_compare_ignores_surplus:
  "main_compare view bmodel0 bmodel1 format n
     (take (min (length tpu_cmd_a) (length tpu_cmd_b)) tpu_cmd_a)
     (take (min (length tpu_cmd_a) (length tpu_cmd_b)) tpu_cmd_b)
   = main_compare view bmodel0 bmodel1 format n tpu_cmd_a tpu_cmd_b"
  by (rule main_compare_take)

end
